theory Spec2Isabelle
  imports Complex_Main "HOL-Library.Word"
begin

section \<open>Python values, exceptions and printed output\<close>

text \<open>
  The notebooks are Python. A value read from JSON is one of Python's \<open>None\<close>, \<open>bool\<close>,
  \<open>int\<close>, \<open>float\<close>, \<open>str\<close>, \<open>list\<close> or \<open>dict\<close>. A finite float is carried by its exact
  rational value; \<open>json.loads\<close> also accepts the three non-finite floats.
\<close>

datatype nonfinite = NaN | PosInfinity | NegInfinity

datatype pyval =
    PNone
  | PBool bool
  | PInt int
  | PFloat rat
  | PNonFinite nonfinite
  | PStr string
  | PList "pyval list"
  | PDict "(string \<times> pyval) list"

text \<open>
  Exceptions are values. \<open>KeyboardInterrupt\<close> and \<open>SystemExit\<close> derive from
  \<open>BaseException\<close> only, and \<open>except Exception\<close> does not catch them.
\<close>

datatype exn =
    ComputeTargetException string
  | HTTPError int string string
  | JSONDecodeError
  | KeyError
  | IndexError
  | TypeError
  | ValueError
  | OSError
  | ZeroDivisionError
  | AttributeError
  | OtherException string
  | KeyboardInterrupt
  | SystemExit

fun is_Exception :: "exn \<Rightarrow> bool" where
  "is_Exception KeyboardInterrupt = False"
| "is_Exception SystemExit = False"
| "is_Exception _ = True"

fun is_ComputeTargetException :: "exn \<Rightarrow> bool" where
  "is_ComputeTargetException (ComputeTargetException _) = True"
| "is_ComputeTargetException _ = False"

fun is_HTTPError :: "exn \<Rightarrow> bool" where
  "is_HTTPError (HTTPError _ _ _) = True"
| "is_HTTPError _ = False"

text \<open>Subscripts: \<open>v["key"]\<close> and \<open>v[i]\<close>, with the exception each raises.\<close>

datatype subscript = Key string | Index int

definition seq_index :: "'a list \<Rightarrow> int \<Rightarrow> exn + 'a" where
  "seq_index xs i =
     (if 0 \<le> i \<and> i < int (length xs) then Inr (xs ! nat i)
      else if i < 0 \<and> - int (length xs) \<le> i then Inr (xs ! nat (int (length xs) + i))
      else Inl IndexError)"

fun getitem :: "pyval \<Rightarrow> subscript \<Rightarrow> exn + pyval" where
  "getitem (PDict kvs) (Key k) =
     (case map_of kvs k of None \<Rightarrow> Inl KeyError | Some v \<Rightarrow> Inr v)"
| "getitem (PDict kvs) (Index i) = Inl KeyError"
| "getitem (PList xs) (Index i) = seq_index xs i"
| "getitem (PList xs) (Key k) = Inl TypeError"
| "getitem (PStr s) (Index i) =
     (case seq_index s i of Inl e \<Rightarrow> Inl e | Inr c \<Rightarrow> Inr (PStr [c]))"
| "getitem (PStr s) (Key k) = Inl TypeError"
| "getitem _ _ = Inl TypeError"

text \<open>Python's \<open>v == n\<close> for an integer literal \<open>n\<close>: numbers compare by value, and
  \<open>True\<close> and \<open>False\<close> are the integers 1 and 0.\<close>

fun py_eq_int :: "pyval \<Rightarrow> int \<Rightarrow> bool" where
  "py_eq_int (PInt m) n = (m = n)"
| "py_eq_int (PFloat r) n = (r = of_int n)"
| "py_eq_int (PBool b) n = ((if b then 1 else 0) = n)"
| "py_eq_int _ n = False"

section \<open>The scoring clients\<close>

record request =
  url :: string
  body :: string
  headers :: "(string \<times> string) list"

record response =
  status_code :: int
  content :: string

text \<open>What \<open>print\<close> received: literal text, a value, a number formatted with
  \<open>{:.2f}\<close>, a response object, an exception, or a line break inside one call.\<close>

datatype printed = Text string | Value pyval | Fixed2 pyval | Obj response | Exc exn | Newline

record cell_result =
  sent :: "request list"
  stdout :: "printed list list"
  raised :: "exn option"

text \<open>
  \<open>response.json()\<close> decodes the body; \<open>json.loads\<close> wants a \<open>str\<close>. The decoder
  \<open>loads\<close> and the encoder \<open>dumps\<close> are the library's and are parameters.
\<close>

definition response_json :: "(string \<Rightarrow> exn + pyval) \<Rightarrow> response \<Rightarrow> exn + pyval" where
  "response_json loads r = loads (content r)"

definition json_loads :: "(string \<Rightarrow> exn + pyval) \<Rightarrow> pyval \<Rightarrow> exn + pyval" where
  "json_loads loads v = (case v of PStr s \<Rightarrow> loads s | _ \<Rightarrow> Inl TypeError)"

text \<open>\<open>y = json.loads(response.json())\<close> followed by \<open>y["result"][0]\<close>.\<close>

definition first_result :: "(string \<Rightarrow> exn + pyval) \<Rightarrow> response \<Rightarrow> exn + pyval" where
  "first_result loads r =
     (case response_json loads r of Inl e \<Rightarrow> Inl e
      | Inr j \<Rightarrow>
        (case json_loads loads j of Inl e \<Rightarrow> Inl e
         | Inr y \<Rightarrow>
           (case getitem y (Key ''result'') of Inl e \<Rightarrow> Inl e
            | Inr res \<Rightarrow> getitem res (Index 0))))"

definition scoring_request ::
  "(pyval \<Rightarrow> string) \<Rightarrow> string \<Rightarrow> string \<Rightarrow> pyval \<Rightarrow> request" where
  "scoring_request dumps endpoint key x =
     (let input_json = dumps (PDict [(''data'', x)]);
          hdrs = [(''Content-Type'', ''application/json''),
                  (''Authorization'', ''Bearer '' @ key)]
      in \<lparr>url = endpoint, body = input_json, headers = hdrs\<rparr>)"

text \<open>
  The cell of the auto-predict-diabetes notebook. \<open>endpoint\<close>, \<open>key\<close> and the patient
  features \<open>x\<close> are the values the user puts at the top of the cell; \<open>post\<close> is the
  network (\<open>requests.post\<close>).
\<close>

definition auto_predict_cell ::
  "(pyval \<Rightarrow> string) \<Rightarrow> (string \<Rightarrow> exn + pyval) \<Rightarrow> (request \<Rightarrow> exn + response)
     \<Rightarrow> string \<Rightarrow> string \<Rightarrow> pyval \<Rightarrow> cell_result" where
  "auto_predict_cell dumps loads post endpoint key x =
     (let req = scoring_request dumps endpoint key x in
      case post req of
        Inl e \<Rightarrow> \<lparr>sent = [req], stdout = [], raised = Some e\<rparr>
      | Inr resp \<Rightarrow>
          if status_code resp = 200 then
            (case first_result loads resp of
               Inl e \<Rightarrow> \<lparr>sent = [req], stdout = [], raised = Some e\<rparr>
             | Inr v \<Rightarrow>
                 \<lparr>sent = [req],
                  stdout = [[Text ''Prediction:'', Value v],
                            [Text (if py_eq_int v 1 then ''Diabetic'' else ''Not Diabetic'')]],
                  raised = None\<rparr>)
          else \<lparr>sent = [req], stdout = [[Obj resp]], raised = None\<rparr>)"

text \<open>Stand-ins for the library and the network, used to run the cells on concrete inputs.\<close>

definition example_dumps :: "pyval \<Rightarrow> string" where
  "example_dumps v = (case v of PDict [(k, PList xs)] \<Rightarrow> k @ '':'' @ replicate (length xs) CHR ''r'' | _ \<Rightarrow> ''?'')"

definition example_loads :: "string \<Rightarrow> exn + pyval" where
  "example_loads s =
     (if s = ''body-diabetic'' then Inr (PStr ''text-diabetic'')
      else if s = ''text-diabetic'' then Inr (PDict [(''result'', PList [PInt 1])])
      else if s = ''body-healthy'' then Inr (PStr ''text-healthy'')
      else if s = ''text-healthy'' then Inr (PDict [(''result'', PList [PInt 0, PInt 1])])
      else Inl JSONDecodeError)"

definition example_patient :: pyval where
  "example_patient =
     PList [PDict [(''PatientID'', PInt 1), (''Pregnancies'', PInt 4),
                   (''PlasmaGlucose'', PFloat 120), (''TricepsThickness'', PFloat 20),
                   (''SerumInsulin'', PFloat 23), (''Age'', PFloat 21)]]"

definition post_returning :: "int \<Rightarrow> string \<Rightarrow> request \<Rightarrow> exn + response" where
  "post_returning code txt req = Inr \<lparr>status_code = code, content = txt\<rparr>"


subsection \<open>The designer-pipeline client\<close>

definition and_then :: "exn + 'a \<Rightarrow> ('a \<Rightarrow> exn + 'b) \<Rightarrow> exn + 'b" where
  "and_then r f = (case r of Inl e \<Rightarrow> Inl e | Inr a \<Rightarrow> f a)"

text \<open>The object \<open>urlopen\<close> returns; \<open>read()\<close> may fail on its own.\<close>

record http_response =
  read_body :: "exn + string"

definition designer_data :: "pyval \<Rightarrow> pyval" where
  "designer_data x =
     PDict [(''Inputs'', PDict [(''WebServiceInput0'', PList [x])]),
            (''GlobalParameters'', PDict [])]"

definition designer_request ::
  "(pyval \<Rightarrow> string) \<Rightarrow> string \<Rightarrow> string \<Rightarrow> pyval \<Rightarrow> request" where
  "designer_request dumps endpoint key x =
     \<lparr>url = endpoint, body = dumps (designer_data x),
      headers = [(''Content-Type'', ''application/json''),
                 (''Authorization'', ''Bearer '' @ key)]\<rparr>"

text \<open>\<open>'{:.2f}'.format(v)\<close>: numbers format, a string or any other value raises.\<close>

fun format_2f :: "pyval \<Rightarrow> exn + printed" where
  "format_2f (PInt n) = Inr (Fixed2 (PInt n))"
| "format_2f (PFloat r) = Inr (Fixed2 (PFloat r))"
| "format_2f (PNonFinite f) = Inr (Fixed2 (PNonFinite f))"
| "format_2f (PBool b) = Inr (Fixed2 (PBool b))"
| "format_2f (PStr s) = Inl ValueError"
| "format_2f _ = Inl TypeError"

definition designer_output :: "pyval \<Rightarrow> exn + printed list" where
  "designer_output json_result =
     and_then (getitem json_result (Key ''Results'')) (\<lambda>results.
     and_then (getitem results (Key ''WebServiceOutput0'')) (\<lambda>outputs.
     and_then (getitem outputs (Index 0)) (\<lambda>output.
     and_then (getitem output (Key ''PatientID'')) (\<lambda>patient.
     and_then (getitem output (Key ''DiabetesPrediction'')) (\<lambda>prediction.
     and_then (getitem output (Key ''Probability'')) (\<lambda>probability.
     and_then (format_2f probability) (\<lambda>shown.
       Inr [Text ''Patient: '', Value patient, Newline,
            Text ''Prediction: '', Value prediction, Newline,
            Text ''Probability: '', shown])))))))"

text \<open>The body of the \<open>try\<close>: what it printed and the exception that ended it, if any.\<close>

definition designer_try ::
  "(string \<Rightarrow> exn + pyval) \<Rightarrow> (request \<Rightarrow> exn + http_response) \<Rightarrow> request
     \<Rightarrow> printed list list \<times> exn option" where
  "designer_try loads urlopen req =
     (case and_then (urlopen req) (\<lambda>resp.
           and_then (read_body resp) (\<lambda>result.
           and_then (loads result) designer_output)) of
        Inl e \<Rightarrow> ([], Some e)
      | Inr line \<Rightarrow> ([line], None))"

text \<open>The body of \<open>except urllib.error.HTTPError as error\<close>: three \<open>print\<close> calls, the
  last of which decodes the error body first.\<close>

definition http_error_handler ::
  "(string \<Rightarrow> exn + pyval) \<Rightarrow> int \<Rightarrow> string \<Rightarrow> string \<Rightarrow> printed list list \<times> exn option" where
  "http_error_handler loads code info err_body =
     (let failed = [Text ''The request failed with status code: '', Value (PInt code)];
          hdrs = [Text info]
      in case loads err_body of
           Inl e \<Rightarrow> ([failed, hdrs], Some e)
         | Inr v \<Rightarrow> ([failed, hdrs, [Value v]], None))"

definition designer_cell ::
  "(pyval \<Rightarrow> string) \<Rightarrow> (string \<Rightarrow> exn + pyval) \<Rightarrow> (request \<Rightarrow> exn + http_response)
     \<Rightarrow> string \<Rightarrow> string \<Rightarrow> pyval \<Rightarrow> cell_result" where
  "designer_cell dumps loads urlopen endpoint key x =
     (let req = designer_request dumps endpoint key x in
      case designer_try loads urlopen req of
        (printed_lines, None) \<Rightarrow> \<lparr>sent = [req], stdout = printed_lines, raised = None\<rparr>
      | (printed_lines, Some (HTTPError code info err_body)) \<Rightarrow>
          (case http_error_handler loads code info err_body of
             (further, ex) \<Rightarrow> \<lparr>sent = [req], stdout = printed_lines @ further, raised = ex\<rparr>)
      | (printed_lines, Some e) \<Rightarrow> \<lparr>sent = [req], stdout = printed_lines, raised = Some e\<rparr>)"

section \<open>Cells that call the SDK inside \<open>try\<close>\<close>

datatype compute_target = ComputeTarget string

record compute_config =
  vm_size :: string
  max_nodes :: nat

datatype dataset = TabularDataset string | RegisteredDataset string

text \<open>The calls a cell makes to the SDK, in the order it makes them.\<close>

datatype sdk_call =
    GetComputeTarget string
  | ProvisioningConfiguration string nat
  | CreateComputeTarget string compute_config
  | ClusterWaitForCompletion compute_target
  | UploadFiles "string list" string
  | FromDelimitedFiles string
  | RegisterDataset dataset string

text \<open>What the platform answers. Every call may raise.\<close>

record sdk =
  get_compute_target :: "string \<Rightarrow> exn + compute_target"
  provisioning_configuration :: "string \<Rightarrow> nat \<Rightarrow> exn + compute_config"
  create_compute_target :: "string \<Rightarrow> compute_config \<Rightarrow> exn + compute_target"
  cluster_wait_for_completion :: "compute_target \<Rightarrow> printed list list \<times> exn option"
  registered_datasets :: "string list"
  upload_files :: "string list \<Rightarrow> string \<Rightarrow> printed list list \<times> exn option"
  from_delimited_files :: "string \<Rightarrow> exn + dataset"
  register_dataset :: "dataset \<Rightarrow> string \<Rightarrow> exn + dataset"

text \<open>The notebook's variables these cells assign, the calls made and the output so far.\<close>

record nb_state =
  training_cluster :: "compute_target option"
  tab_data_set :: "dataset option"
  calls :: "sdk_call list"
  out :: "printed list list"

definition called :: "sdk_call \<Rightarrow> nb_state \<Rightarrow> nb_state" where
  "called c st = st\<lparr>calls := calls st @ [c]\<rparr>"

definition prints :: "printed list list \<Rightarrow> nb_state \<Rightarrow> nb_state" where
  "prints ls st = st\<lparr>out := out st @ ls\<rparr>"

text \<open>The body of \<open>except Exception as ex: print(ex)\<close>.\<close>

definition print_exception :: "exn \<Rightarrow> nb_state \<Rightarrow> nb_state" where
  "print_exception ex st = prints [[Exc ex]] st"

definition cluster_name :: string where
  "cluster_name = ''dp100cluster''"

text \<open>The inner \<open>try\<close> of the compute cell: configure, create, wait.\<close>

definition create_cluster :: "sdk \<Rightarrow> nb_state \<Rightarrow> nb_state \<times> exn option" where
  "create_cluster pf st =
     (let st1 = called (ProvisioningConfiguration ''STANDARD_DS11_V2'' 2) st in
      case provisioning_configuration pf ''STANDARD_DS11_V2'' 2 of
        Inl e \<Rightarrow> (st1, Some e)
      | Inr compute_config \<Rightarrow>
          (let st2 = called (CreateComputeTarget cluster_name compute_config) st1 in
           case create_compute_target pf cluster_name compute_config of
             Inl e \<Rightarrow> (st2, Some e)
           | Inr c \<Rightarrow>
               (let st3 = called (ClusterWaitForCompletion c) (st2\<lparr>training_cluster := Some c\<rparr>)
                in case cluster_wait_for_completion pf c of
                     (shown, ex) \<Rightarrow> (prints shown st3, ex))))"

text \<open>The body of \<open>except ComputeTargetException:\<close>, the inner \<open>try\<close> with its handler.\<close>

definition cluster_not_found_handler :: "sdk \<Rightarrow> nb_state \<Rightarrow> nb_state \<times> exn option" where
  "cluster_not_found_handler pf st =
     (case create_cluster pf st of
        (st', None) \<Rightarrow> (st', None)
      | (st', Some ex) \<Rightarrow>
          if is_Exception ex then (print_exception ex st', None) else (st', Some ex))"

definition compute_target_cell :: "sdk \<Rightarrow> nb_state \<Rightarrow> nb_state \<times> exn option" where
  "compute_target_cell pf st =
     (let st1 = called (GetComputeTarget cluster_name) st in
      case get_compute_target pf cluster_name of
        Inr c \<Rightarrow>
          (prints [[Text ''Found existing cluster, use it.'']] (st1\<lparr>training_cluster := Some c\<rparr>),
           None)
      | Inl e \<Rightarrow>
          if is_ComputeTargetException e then cluster_not_found_handler pf st1
          else (st1, Some e))"

text \<open>The dataset cell of the hyperparameter, automated-ML and compute notebooks.\<close>

definition register_try :: "sdk \<Rightarrow> dataset \<Rightarrow> nb_state \<Rightarrow> nb_state \<times> exn option" where
  "register_try pf d st =
     (let st1 = called (RegisterDataset d ''diabetes dataset'') st in
      case register_dataset pf d ''diabetes dataset'' of
        Inl e \<Rightarrow> (st1, Some e)
      | Inr d' \<Rightarrow> (prints [[Text ''Dataset registered.'']] (st1\<lparr>tab_data_set := Some d'\<rparr>), None))"

definition dataset_cell :: "sdk \<Rightarrow> nb_state \<Rightarrow> nb_state \<times> exn option" where
  "dataset_cell pf st =
     (if ''diabetes dataset'' \<notin> set (registered_datasets pf) then
        (let files = [''./data/diabetes.csv'', ''./data/diabetes2.csv''];
             st1 = called (UploadFiles files ''diabetes-data/'') st
         in case upload_files pf files ''diabetes-data/'' of
              (shown, Some e) \<Rightarrow> (prints shown st1, Some e)
            | (shown, None) \<Rightarrow>
                (let st2 = called (FromDelimitedFiles ''diabetes-data/*.csv'') (prints shown st1) in
                 case from_delimited_files pf ''diabetes-data/*.csv'' of
                   Inl e \<Rightarrow> (st2, Some e)
                 | Inr d \<Rightarrow>
                     (case register_try pf d (st2\<lparr>tab_data_set := Some d\<rparr>) of
                        (st3, None) \<Rightarrow> (st3, None)
                      | (st3, Some ex) \<Rightarrow>
                          if is_Exception ex then (print_exception ex st3, None)
                          else (st3, Some ex))))
      else (prints [[Text ''Dataset already registered.'']] st, None))"

definition fresh_nb :: nb_state where
  "fresh_nb = \<lparr>training_cluster = None, tab_data_set = None, calls = [], out = []\<rparr>"

text \<open>A workspace without the cluster, where creating it works.\<close>

definition sdk_without_cluster :: sdk where
  "sdk_without_cluster =
     \<lparr>get_compute_target = (\<lambda>n. Inl (ComputeTargetException ''ComputeTargetNotFound'')),
      provisioning_configuration = (\<lambda>v n. Inr \<lparr>vm_size = v, max_nodes = n\<rparr>),
      create_compute_target = (\<lambda>n c. Inr (ComputeTarget n)),
      cluster_wait_for_completion = (\<lambda>c. ([[Text ''Succeeded'']], None)),
      registered_datasets = [],
      upload_files = (\<lambda>fs t. ([], None)),
      from_delimited_files = (\<lambda>p. Inr (TabularDataset p)),
      register_dataset = (\<lambda>d n. Inr (RegisteredDataset n))\<rparr>"

text \<open>A workspace without the cluster, where the quota forbids creating one and
  registering a dataset is refused.\<close>

definition sdk_refusing :: sdk where
  "sdk_refusing =
     \<lparr>get_compute_target = (\<lambda>n. Inl (ComputeTargetException ''ComputeTargetNotFound'')),
      provisioning_configuration = (\<lambda>v n. Inr \<lparr>vm_size = v, max_nodes = n\<rparr>),
      create_compute_target = (\<lambda>n c. Inl (OtherException ''quota exceeded'')),
      cluster_wait_for_completion = (\<lambda>c. ([], None)),
      registered_datasets = [],
      upload_files = (\<lambda>fs t. ([], None)),
      from_delimited_files = (\<lambda>p. Inr (TabularDataset p)),
      register_dataset = (\<lambda>d n. Inl (OtherException ''forbidden''))\<rparr>"

definition urlopen_failing :: "int \<Rightarrow> request \<Rightarrow> exn + http_response" where
  "urlopen_failing code req = Inl (HTTPError code ''Content-Length: 0'' ''body-healthy'')"


section \<open>The simulated-drift data generator\<close>

text \<open>
  The cell of the data-drift notebook that writes six weekly files. The dataframe is
  kept by column: \<open>Pregnancies\<close> and \<open>Age\<close> are \<open>int64\<close> columns, \<open>BMI\<close> is a \<open>float64\<close>
  column, and \<open>others\<close> stands for the index and the columns the cell does not touch.
\<close>

record ('f, 'o) frame =
  Pregnancies :: "64 word list"
  Age :: "64 word list"
  BMI :: "'f list"
  others :: 'o

text \<open>
  The \<open>float64\<close> arithmetic of the column operations is the library's. It is a parameter:
  conversion from \<open>int64\<close>, the value of a decimal literal, multiplication, rounding to
  an integral float (\<open>round\<close>) and the cast \<open>astype(int)\<close>.
\<close>

record 'f float_ops =
  of_int64 :: "64 word \<Rightarrow> 'f"
  lit :: "rat \<Rightarrow> 'f"
  fmul :: "'f \<Rightarrow> 'f \<Rightarrow> 'f"
  rint :: "'f \<Rightarrow> 'f"
  to_int64 :: "'f \<Rightarrow> 64 word"

definition grow_pregnancies :: "64 word \<Rightarrow> 64 word" where
  "grow_pregnancies p = p + 1"

definition grow_age :: "'f float_ops \<Rightarrow> 64 word \<Rightarrow> 64 word" where
  "grow_age fl a = to_int64 fl (rint fl (fmul fl (of_int64 fl a) (lit fl 1.2)))"

definition grow_bmi :: "'f float_ops \<Rightarrow> 'f \<Rightarrow> 'f" where
  "grow_bmi fl b = fmul fl b (lit fl 1.1)"

text \<open>The three assignments of the loop body, in the order of the source.\<close>

definition modify_data :: "'f float_ops \<Rightarrow> ('f, 'o) frame \<Rightarrow> ('f, 'o) frame" where
  "modify_data fl d =
     (let d1 = d\<lparr>Pregnancies := map grow_pregnancies (Pregnancies d)\<rparr>;
          d2 = d1\<lparr>Age := map (grow_age fl) (Age d1)\<rparr>;
          d3 = d2\<lparr>BMI := map (grow_bmi fl) (BMI d2)\<rparr>
      in d3)"

text \<open>
  The state of the loop: the dataframe \<open>data\<close>, which every iteration overwrites, the
  files written so far with their contents, the list \<open>file_paths\<close>, and the number of
  times the clock has been read. A date is its day number.
\<close>

record ('f, 'o) drift_state =
  data :: "('f, 'o) frame"
  written :: "(string \<times> ('f, 'o) frame) list"
  file_paths :: "string list"
  clock_reads :: nat

definition drift_file_path :: "(int \<Rightarrow> string) \<Rightarrow> int \<Rightarrow> string" where
  "drift_file_path strftime data_date = ''data/diabetes_'' @ strftime data_date @ ''.csv''"

text \<open>
  One iteration. \<open>today n\<close> is what \<open>dt.date.today()\<close> returns at the \<open>n\<close>-th reading;
  \<open>to_csv\<close> raises where the path cannot be written.
\<close>

definition drift_iteration ::
  "'f float_ops \<Rightarrow> (nat \<Rightarrow> int) \<Rightarrow> (int \<Rightarrow> string) \<Rightarrow> (string \<Rightarrow> bool) \<Rightarrow> nat
     \<Rightarrow> ('f, 'o) drift_state \<Rightarrow> ('f, 'o) drift_state \<times> exn option" where
  "drift_iteration fl today strftime writable weekno st =
     (let data_date = today (clock_reads st) - 7 * int weekno;
          st1 = st\<lparr>clock_reads := Suc (clock_reads st)\<rparr>;
          st2 = st1\<lparr>data := modify_data fl (data st1)\<rparr>;
          file_path = drift_file_path strftime data_date
      in if writable file_path then
           (st2\<lparr>written := written st2 @ [(file_path, data st2)],
                file_paths := file_paths st2 @ [file_path]\<rparr>, None)
         else (st2, Some OSError))"

fun drift_loop ::
  "'f float_ops \<Rightarrow> (nat \<Rightarrow> int) \<Rightarrow> (int \<Rightarrow> string) \<Rightarrow> (string \<Rightarrow> bool) \<Rightarrow> nat list
     \<Rightarrow> ('f, 'o) drift_state \<Rightarrow> ('f, 'o) drift_state \<times> exn option" where
  "drift_loop fl today strftime writable [] st = (st, None)"
| "drift_loop fl today strftime writable (weekno # weeknos) st =
     (case drift_iteration fl today strftime writable weekno st of
        (st', Some e) \<Rightarrow> (st', Some e)
      | (st', None) \<Rightarrow> drift_loop fl today strftime writable weeknos st')"

definition weeknos :: "nat list" where
  "weeknos = rev [0..<6]"

definition generate_drift_data ::
  "'f float_ops \<Rightarrow> (nat \<Rightarrow> int) \<Rightarrow> (int \<Rightarrow> string) \<Rightarrow> (string \<Rightarrow> bool)
     \<Rightarrow> exn + ('f, 'o) frame \<Rightarrow> exn + ('f, 'o) drift_state \<times> exn option" where
  "generate_drift_data fl today strftime writable read_csv =
     (case read_csv of
        Inl e \<Rightarrow> Inl e
      | Inr d \<Rightarrow>
          Inr (drift_loop fl today strftime writable weeknos
                 \<lparr>data = d, written = [], file_paths = [], clock_reads = 0\<rparr>))"

text \<open>Exact arithmetic on the rationals, as one instance of the column arithmetic.\<close>

definition round_half_even :: "rat \<Rightarrow> int" where
  "round_half_even r =
     (let f = \<lfloor>r\<rfloor>; d = r - of_int f
      in if d < 1 / 2 then f else if 1 / 2 < d then f + 1 else if even f then f else f + 1)"

definition exact_ops :: "rat float_ops" where
  "exact_ops =
     \<lparr>of_int64 = (\<lambda>w. of_int (sint w)),
      lit = (\<lambda>r. r),
      fmul = (\<lambda>a b. a * b),
      rint = (\<lambda>r. of_int (round_half_even r)),
      to_int64 = (\<lambda>r. word_of_int (if 0 \<le> r then \<lfloor>r\<rfloor> else \<lceil>r\<rceil>))\<rparr>"

definition two_patients :: "(rat, unit) frame" where
  "two_patients = \<lparr>Pregnancies = [0, 3], Age = [21, 43], BMI = [25, 30], others = ()\<rparr>"

text \<open>\<open>strftime("%Y-%m-%d")\<close> on the six Wednesdays up to 17 March 2021 (day 737866) and
  the week after; the generator is run on these days only.\<close>

definition strftime_2021 :: "int \<Rightarrow> string" where
  "strftime_2021 n =
     (if n = 737831 then ''2021-02-10'' else if n = 737838 then ''2021-02-17''
      else if n = 737845 then ''2021-02-24'' else if n = 737852 then ''2021-03-03''
      else if n = 737859 then ''2021-03-10'' else if n = 737866 then ''2021-03-17''
      else if n = 737873 then ''2021-03-24'' else ''another day'')"

text \<open>
  The files a complete run of the loop writes, given the clock readings so far \<open>t\<close>, the
  remaining week numbers \<open>ws\<close> and the dataframe \<open>d\<close> at the start: the \<open>i\<close>-th file is
  named after the \<open>i\<close>-th date and holds \<open>d\<close> modified \<open>i + 1\<close> times.
\<close>

definition expected_writes ::
  "'f float_ops \<Rightarrow> (nat \<Rightarrow> int) \<Rightarrow> (int \<Rightarrow> string) \<Rightarrow> nat \<Rightarrow> nat list \<Rightarrow> ('f, 'o) frame
     \<Rightarrow> (string \<times> ('f, 'o) frame) list" where
  "expected_writes fl today strftime t ws d =
     map (\<lambda>i. (drift_file_path strftime (today (t + i) - 7 * int (ws ! i)),
               (modify_data fl ^^ Suc i) d)) [0..<length ws]"


section \<open>The training scripts\<close>

text \<open>
  \<open>diabetes_training.py\<close> of the training notebook, in its plain and its parameterized
  version. A table read from CSV has named columns and rows; a row gives the value of
  each column.
\<close>

record 'v table =
  columns :: "string list"
  rows :: "(string \<Rightarrow> 'v) list"

definition feature_columns :: "string list" where
  "feature_columns =
     [''Pregnancies'', ''PlasmaGlucose'', ''DiastolicBloodPressure'', ''TricepsThickness'',
      ''SerumInsulin'', ''BMI'', ''DiabetesPedigree'', ''Age'']"

text \<open>\<open>df[[c1, ..., cn]].values\<close> and \<open>df[c].values\<close>; a missing column raises.\<close>

definition select_values :: "'v table \<Rightarrow> string list \<Rightarrow> exn + 'v list list" where
  "select_values df cs =
     (if set cs \<subseteq> set (columns df) then Inr (map (\<lambda>r. map r cs) (rows df))
      else Inl KeyError)"

definition column_values :: "'v table \<Rightarrow> string \<Rightarrow> exn + 'v list" where
  "column_values df c =
     (if c \<in> set (columns df) then Inr (map (\<lambda>r. r c) (rows df)) else Inl KeyError)"

text \<open>The line \<open>X, y = diabetes[[...]].values, diabetes['Diabetic'].values\<close>.\<close>

definition features_and_labels :: "'v table \<Rightarrow> exn + 'v list list \<times> 'v list" where
  "features_and_labels diabetes =
     and_then (select_values diabetes feature_columns) (\<lambda>X.
     and_then (column_values diabetes ''Diabetic'') (\<lambda>y. Inr (X, y)))"

text \<open>
  The libraries the scripts call are parameters: scikit-learn's index split, fit,
  predict and scoring functions, \<open>joblib.dump\<close>, the command-line parser, and the \<open>float64\<close>
  operations the scripts use (the value of a literal, \<open>1 / reg\<close>, and the quotient
  \<open>np.average\<close> takes of a count of \<open>True\<close> by a length). \<open>'g\<close> is the state of the
  process-wide random generator, which the library reads where no seed is given.
\<close>

record ('v, 'm, 'f, 'g) libs =
  split_indices :: "nat \<Rightarrow> rat \<Rightarrow> nat option \<Rightarrow> 'g \<Rightarrow> exn + nat list \<times> nat list"
  fit :: "'g \<Rightarrow> 'f \<Rightarrow> 'v list list \<Rightarrow> 'v list \<Rightarrow> exn + 'm"
  predict :: "'m \<Rightarrow> 'v list list \<Rightarrow> exn + 'v list"
  predict_proba :: "'m \<Rightarrow> 'v list list \<Rightarrow> exn + 'f list list"
  roc_auc_score :: "'v list \<Rightarrow> 'f list \<Rightarrow> exn + 'f"
  joblib_dump :: "'m \<Rightarrow> string \<Rightarrow> exn option"
  parse_args :: "string list \<Rightarrow> exn + 'f option"
  float_literal :: "rat \<Rightarrow> 'f"
  one_over :: "'f \<Rightarrow> exn + 'f"
  quotient :: "nat \<Rightarrow> nat \<Rightarrow> 'f"

text \<open>
  \<open>train_test_split(X, y, test_size=t, random_state=s)\<close>: the library chooses the train
  and the test indices from the number of rows, and both arrays are indexed by them.
\<close>

definition train_test_split ::
  "('v, 'm, 'f, 'g) libs \<Rightarrow> 'g \<Rightarrow> 'v list list \<Rightarrow> 'v list \<Rightarrow> rat \<Rightarrow> nat option
     \<Rightarrow> exn + 'v list list \<times> 'v list list \<times> 'v list \<times> 'v list" where
  "train_test_split lib g X y test_size random_state =
     (case split_indices lib (length X) test_size random_state g of
        Inl e \<Rightarrow> Inl e
      | Inr (train, test) \<Rightarrow>
          Inr (map (\<lambda>i. X ! i) train, map (\<lambda>i. X ! i) test,
               map (\<lambda>i. y ! i) train, map (\<lambda>i. y ! i) test))"

text \<open>
  What a script has done when it ends: the metrics logged to the run, in order, the
  values of \<open>X_train, X_test, y_train, y_test\<close> once assigned, the model file, whether
  \<open>run.complete()\<close> was reached, and the exception that ended it, if any.
\<close>

record ('v, 'm, 'f) script_result =
  logged :: "(string \<times> 'f) list"
  partition :: "('v list list \<times> 'v list list \<times> 'v list \<times> 'v list) option"
  model_file :: "(string \<times> 'm) option"
  completed :: bool
  failure :: "exn option"

definition script_start :: "('v, 'm, 'f) script_result" where
  "script_start =
     \<lparr>logged = [], partition = None, model_file = None, completed = False, failure = None\<rparr>"

definition fails :: "exn \<Rightarrow> ('v, 'm, 'f) script_result \<Rightarrow> ('v, 'm, 'f) script_result" where
  "fails e res = res\<lparr>failure := Some e\<rparr>"

definition run_log ::
  "string \<Rightarrow> 'f \<Rightarrow> ('v, 'm, 'f) script_result \<Rightarrow> ('v, 'm, 'f) script_result" where
  "run_log name v res = res\<lparr>logged := logged res @ [(name, v)]\<rparr>"

text \<open>\<open>np.average(y_hat == y_test)\<close>: the share of positions where the two agree.\<close>

definition accuracy :: "('v, 'm, 'f, 'g) libs \<Rightarrow> 'v list \<Rightarrow> 'v list \<Rightarrow> 'f" where
  "accuracy lib y_hat y_test =
     (let hits = map2 (\<lambda>a b. a = b) y_hat y_test
      in quotient lib (length (filter (\<lambda>h. h) hits)) (length hits))"

text \<open>\<open>y_scores[:,1]\<close>.\<close>

definition second_column :: "'f list list \<Rightarrow> exn + 'f list" where
  "second_column m =
     (if \<forall>r \<in> set m. 2 \<le> length r then Inr (map (\<lambda>r. r ! 1) m) else Inl IndexError)"

text \<open>The scripts from loading the data to the split.\<close>

definition load_and_split ::
  "('v, 'm, 'f, 'g) libs \<Rightarrow> 'g \<Rightarrow> exn + 'v table
     \<Rightarrow> exn + 'v list list \<times> 'v list list \<times> 'v list \<times> 'v list" where
  "load_and_split lib g read_csv =
     and_then read_csv (\<lambda>diabetes.
     and_then (features_and_labels diabetes) (\<lambda>(X, y).
       train_test_split lib g X y 0.30 (Some 0)))"

text \<open>The scripts from the first \<open>run.log\<close> to \<open>run.complete()\<close>.\<close>

definition train_and_log ::
  "('v, 'm, 'f, 'g) libs \<Rightarrow> 'g \<Rightarrow> 'f
     \<Rightarrow> 'v list list \<times> 'v list list \<times> 'v list \<times> 'v list
     \<Rightarrow> ('v, 'm, 'f) script_result \<Rightarrow> ('v, 'm, 'f) script_result" where
  "train_and_log lib g reg parts res0 =
     (case parts of (X_train, X_test, y_train, y_test) \<Rightarrow>
      let res1 = run_log ''Regularization Rate'' reg (res0\<lparr>partition := Some parts\<rparr>) in
      case and_then (one_over lib reg) (\<lambda>c. fit lib g c X_train y_train) of
        Inl e \<Rightarrow> fails e res1
      | Inr model \<Rightarrow>
          (case predict lib model X_test of
             Inl e \<Rightarrow> fails e res1
           | Inr y_hat \<Rightarrow>
               (let acc = accuracy lib y_hat y_test;
                    res2 = run_log ''Accuracy'' acc res1
                in case and_then (predict_proba lib model X_test) (\<lambda>y_scores.
                        and_then (second_column y_scores) (roc_auc_score lib y_test)) of
                     Inl e \<Rightarrow> fails e res2
                   | Inr auc \<Rightarrow>
                       (let res3 = run_log ''AUC'' auc res2 in
                        case joblib_dump lib model ''outputs/diabetes_model.pkl'' of
                          Some e \<Rightarrow> fails e res3
                        | None \<Rightarrow>
                            res3\<lparr>model_file := Some (''outputs/diabetes_model.pkl'', model),
                                 completed := True\<rparr>))))"

text \<open>The plain script: \<open>reg = 0.01\<close>.\<close>

definition diabetes_training ::
  "('v, 'm, 'f, 'g) libs \<Rightarrow> 'g \<Rightarrow> exn + 'v table \<Rightarrow> ('v, 'm, 'f) script_result" where
  "diabetes_training lib g read_csv =
     (case load_and_split lib g read_csv of
        Inl e \<Rightarrow> fails e script_start
      | Inr parts \<Rightarrow> train_and_log lib g (float_literal lib 0.01) parts script_start)"

text \<open>The parameterized script: \<open>--reg_rate\<close>, with default 0.01, read before the data.\<close>

definition diabetes_training_params ::
  "('v, 'm, 'f, 'g) libs \<Rightarrow> 'g \<Rightarrow> exn + 'v table \<Rightarrow> string list
     \<Rightarrow> ('v, 'm, 'f) script_result" where
  "diabetes_training_params lib g read_csv argv =
     (case parse_args lib argv of
        Inl e \<Rightarrow> fails e script_start
      | Inr given \<Rightarrow>
          (let reg = (case given of None \<Rightarrow> float_literal lib 0.01 | Some r \<Rightarrow> r) in
           case load_and_split lib g read_csv of
             Inl e \<Rightarrow> fails e script_start
           | Inr parts \<Rightarrow> train_and_log lib g reg parts script_start))"


text \<open>
  Stand-ins for the libraries: the split rotates the row numbers by the seed, or by
  the state of the process-wide generator where there is no seed, and takes the first
  three tenths, rounded up, for testing; the model is the first training label.
\<close>

definition example_libs :: "(int, int, rat, nat) libs" where
  "example_libs =
     \<lparr>split_indices = (\<lambda>n test_size random_state g.
        if n = 0 then Inl ValueError
        else (let shift = (case random_state of None \<Rightarrow> g | Some s \<Rightarrow> s);
                  perm = rotate shift [0..<n];
                  n_test = (if test_size = 0.30 then (3 * n + 9) div 10 else (n + 3) div 4)
              in Inr (drop n_test perm, take n_test perm))),
      fit = (\<lambda>g c X y. case y of [] \<Rightarrow> Inl ValueError | l # _ \<Rightarrow> Inr l),
      predict = (\<lambda>m X. Inr (replicate (length X) m)),
      predict_proba = (\<lambda>m X. Inr (replicate (length X) [1 / 2, 1 / 2])),
      roc_auc_score = (\<lambda>y scores. Inr (1 / 2)),
      joblib_dump = (\<lambda>m path. None),
      parse_args = (\<lambda>argv. if argv = [] then Inr None
                            else if argv = [''--reg_rate'', ''0.1''] then Inr (Some (1 / 10))
                            else Inl SystemExit),
      float_literal = (\<lambda>r. r),
      one_over = (\<lambda>r. if r = 0 then Inl ZeroDivisionError else Inr (1 / r)),
      quotient = (\<lambda>a b. of_nat a / of_nat b)\<rparr>"

definition patient_row :: "int \<Rightarrow> int \<Rightarrow> int \<Rightarrow> string \<Rightarrow> int" where
  "patient_row pid glucose diabetic c =
     (if c = ''PatientID'' then pid else if c = ''PlasmaGlucose'' then glucose
      else if c = ''Diabetic'' then diabetic else 0)"

definition example_table :: "int table" where
  "example_table =
     \<lparr>columns = ''PatientID'' # feature_columns @ [''Diabetic''],
      rows = [patient_row 1 171 1, patient_row 2 92 0, patient_row 3 115 1, patient_row 4 103 0]\<rparr>"

text \<open>The same patients under other identifiers.\<close>

definition renumbered_table :: "int table" where
  "renumbered_table =
     \<lparr>columns = ''PatientID'' # feature_columns @ [''Diabetic''],
      rows = [patient_row 11 171 1, patient_row 12 92 0, patient_row 13 115 1,
              patient_row 14 103 0]\<rparr>"

text \<open>
  What is stated of a finished script: the names of the metrics logged are an
  initial part of \<open>Regularization Rate\<close>, \<open>Accuracy\<close>, \<open>AUC\<close>; a script that reached
  \<open>run.complete()\<close> has logged all three and raised nothing; and a logged accuracy is
  the one computed from the predictions of the fitted model on the test part of the
  split, the share of test rows whose prediction equals the label.
\<close>

abbreviation three_metrics ::
  "('v, 'm, 'f, 'g) libs \<Rightarrow> 'g \<Rightarrow> ('v, 'm, 'f) script_result \<Rightarrow> bool" where
  "three_metrics lib g res \<equiv>
     (map fst (logged res) = [] \<or>
      map fst (logged res) = [''Regularization Rate''] \<or>
      map fst (logged res) = [''Regularization Rate'', ''Accuracy''] \<or>
      map fst (logged res) = [''Regularization Rate'', ''Accuracy'', ''AUC'']) \<and>
     (completed res \<longrightarrow>
        map fst (logged res) = [''Regularization Rate'', ''Accuracy'', ''AUC''] \<and>
        failure res = None) \<and>
     (\<forall>acc. (''Accuracy'', acc) \<in> set (logged res) \<longrightarrow>
        (\<exists>X_train X_test y_train y_test reg c model y_hat.
           partition res = Some (X_train, X_test, y_train, y_test) \<and>
           one_over lib reg = Inr c \<and> fit lib g c X_train y_train = Inr model \<and>
           predict lib model X_test = Inr y_hat \<and>
           acc = accuracy lib y_hat y_test \<and>
           (length y_hat = length y_test \<longrightarrow>
              acc = quotient lib (card {i. i < length y_test \<and> y_hat ! i = y_test ! i})
                      (length y_test))))"


section \<open>The notebooks as sequences of calls on runs\<close>

text \<open>
  A run is one the notebook submitted (numbered in the order of submission) or a
  child of a run, which the platform created. \<open>ancestors r\<close> are \<open>r\<close> itself, its
  parent, and so on up to the submitted run \<open>r\<close> belongs to.
\<close>

datatype run = Submitted nat | Child run nat

fun ancestors :: "run \<Rightarrow> run list" where
  "ancestors (Submitted n) = [Submitted n]"
| "ancestors (Child parent k) = Child parent k # ancestors parent"

datatype op =
    SubmitOp
  | BackfillOp
  | WaitOp
  | GetMetricsOp
  | RegisterModelOp
  | GetBestRunOp
  | GetChildrenOp
  | OtherOp string

text \<open>What happens, in order: a method is called on a run, it returns, or a call
  that concerns no run is made.\<close>

datatype event = Call op run | Return op run | Aside string

text \<open>
  The platform decides which calls raise (\<open>wait_for_completion\<close> raises when the run
  failed, every call may raise when the service does), how many children a run has,
  which child is the best and which metrics a run has.
\<close>

record platform =
  raises :: "event list \<Rightarrow> event \<Rightarrow> exn option"
  children :: "run \<Rightarrow> nat"
  best_of :: "run \<Rightarrow> nat option"
  metric_names :: "run \<Rightarrow> string list"

text \<open>
  The kernel's state as far as runs go: the variables that hold runs, the number of
  runs submitted, the events so far, and the exception that stopped the notebook.
  The cells run in order and the first exception stops the notebook.
\<close>

record wf_state =
  vars :: "string \<Rightarrow> run option"
  submissions :: nat
  trace :: "event list"
  halted :: "exn option"

definition wf_start :: wf_state where
  "wf_start = \<lparr>vars = (\<lambda>v. None), submissions = 0, trace = [], halted = None\<rparr>"

definition perform :: "platform \<Rightarrow> op \<Rightarrow> run \<Rightarrow> wf_state \<Rightarrow> wf_state" where
  "perform pf c r st =
     (if halted st \<noteq> None then st
      else case raises pf (trace st) (Call c r) of
             Some ex \<Rightarrow> st\<lparr>trace := trace st @ [Call c r], halted := Some ex\<rparr>
           | None \<Rightarrow> st\<lparr>trace := trace st @ [Call c r, Return c r]\<rparr>)"

definition perform_aside :: "platform \<Rightarrow> string \<Rightarrow> wf_state \<Rightarrow> wf_state" where
  "perform_aside pf name st =
     (if halted st \<noteq> None then st
      else case raises pf (trace st) (Aside name) of
             Some ex \<Rightarrow> st\<lparr>trace := trace st @ [Aside name], halted := Some ex\<rparr>
           | None \<Rightarrow> st\<lparr>trace := trace st @ [Aside name]\<rparr>)"

text \<open>A method call on the run a variable holds; on \<open>None\<close> it raises.\<close>

definition on_run :: "string \<Rightarrow> (run \<Rightarrow> wf_state \<Rightarrow> wf_state) \<Rightarrow> wf_state \<Rightarrow> wf_state" where
  "on_run v f st =
     (if halted st \<noteq> None then st
      else case vars st v of
             None \<Rightarrow> st\<lparr>halted := Some AttributeError\<rparr>
           | Some r \<Rightarrow> f r st)"

text \<open>An assignment \<open>v = ...\<close> after the call on its right-hand side.\<close>

definition assign :: "string \<Rightarrow> run option \<Rightarrow> wf_state \<Rightarrow> wf_state" where
  "assign v r st = (if halted st \<noteq> None then st else st\<lparr>vars := (vars st)(v := r)\<rparr>)"

text \<open>\<open>v = experiment.submit(...)\<close> and \<open>v = monitor.backfill(...)\<close>.\<close>

definition new_run :: "platform \<Rightarrow> op \<Rightarrow> string \<Rightarrow> wf_state \<Rightarrow> wf_state" where
  "new_run pf c v st =
     (if halted st \<noteq> None then st
      else let r = Submitted (submissions st)
           in assign v (Some r) (perform pf c r (st\<lparr>submissions := Suc (submissions st)\<rparr>)))"

text \<open>
  The statements of the notebooks that concern runs. \<open>GetBestRun v p\<close> is
  \<open>v = p.get_best_run_by_primary_metric()\<close>; \<open>ForChildren v p inner\<close> is
  \<open>for v in p.get_children(): inner\<close>; \<open>ForMetrics v\<close> is
  \<open>for metric in v.get_metrics(): print(v.get_metrics(metric))\<close>; \<open>Other name v\<close> is
  another method of the run in \<open>v\<close>, and \<open>Unrelated name\<close> a call that concerns no run.
\<close>

datatype step =
    Submit string
  | Backfill string
  | WaitForCompletion string
  | GetMetrics string
  | RegisterModel string
  | GetBestRun string string
  | ForChildren string string "step list"
  | ForMetrics string
  | Other string string
  | Unrelated string

fun exec :: "platform \<Rightarrow> step \<Rightarrow> wf_state \<Rightarrow> wf_state"
  and exec_all :: "platform \<Rightarrow> step list \<Rightarrow> wf_state \<Rightarrow> wf_state" where
  "exec pf (Submit v) st = new_run pf SubmitOp v st"
| "exec pf (Backfill v) st = new_run pf BackfillOp v st"
| "exec pf (WaitForCompletion v) st = on_run v (perform pf WaitOp) st"
| "exec pf (GetMetrics v) st = on_run v (perform pf GetMetricsOp) st"
| "exec pf (RegisterModel v) st = on_run v (perform pf RegisterModelOp) st"
| "exec pf (GetBestRun v p) st =
     on_run p (\<lambda>r s. assign v (map_option (Child r) (best_of pf r)) (perform pf GetBestRunOp r s)) st"
| "exec pf (ForChildren v p inner) st =
     on_run p (\<lambda>r s. foldl (\<lambda>s' k. exec_all pf inner (assign v (Some (Child r k)) s'))
                        (perform pf GetChildrenOp r s) [0..<children pf r]) st"
| "exec pf (ForMetrics v) st =
     on_run v (\<lambda>r s. foldl (\<lambda>s' m. perform pf GetMetricsOp r s')
                        (perform pf GetMetricsOp r s) (metric_names pf r)) st"
| "exec pf (Other name v) st = on_run v (perform pf (OtherOp name)) st"
| "exec pf (Unrelated name) st = perform_aside pf name st"
| "exec_all pf [] st = st"
| "exec_all pf (s # ss) st = exec_all pf ss (exec pf s st)"

text \<open>The training notebook, from the first submission on.\<close>

definition train_models_notebook :: "step list" where
  "train_models_notebook =
     [Submit ''run'', Other ''RunDetails.show'' ''run'', WaitForCompletion ''run'',
      GetMetrics ''run'', Other ''get_file_names'' ''run'',
      GetMetrics ''run'', GetMetrics ''run'', RegisterModel ''run'', Unrelated ''Model.list'',
      Submit ''run'', Other ''RunDetails.show'' ''run'', WaitForCompletion ''run'',
      GetMetrics ''run'', Other ''get_file_names'' ''run'',
      GetMetrics ''run'', GetMetrics ''run'', RegisterModel ''run'', Unrelated ''Model.list'']"

text \<open>The data-drift notebook, from the backfill on.\<close>

definition data_drift_notebook :: "step list" where
  "data_drift_notebook =
     [Backfill ''backfill'', Other ''RunDetails.show'' ''backfill'',
      WaitForCompletion ''backfill'', GetMetrics ''backfill'']"

text \<open>The hyperparameter-tuning notebook.\<close>

definition hyperdrive_notebook :: "step list" where
  "hyperdrive_notebook =
     [Submit ''run'', Other ''RunDetails.show'' ''run'', WaitForCompletion ''run'',
      Other ''get_children_sorted_by_primary_metric'' ''run'',
      GetBestRun ''best_run'' ''run'', GetMetrics ''best_run'', Other ''get_details'' ''best_run'',
      RegisterModel ''best_run'', Unrelated ''Model.list'']"

text \<open>The automated-ML notebook.\<close>

definition automl_notebook :: "step list" where
  "automl_notebook =
     [Submit ''automl_run'', Other ''RunDetails.show'' ''automl_run'',
      WaitForCompletion ''automl_run'',
      ForChildren ''run'' ''automl_run'' [ForMetrics ''run'']]"

text \<open>The compute notebook: three experiments, the last on the cluster.\<close>

definition compute_notebook :: "step list" where
  "compute_notebook =
     [Submit ''run'', Other ''RunDetails.show'' ''run'', WaitForCompletion ''run'',
      GetMetrics ''run'', Other ''get_file_names'' ''run'',
      Unrelated ''Environment.register'',
      Unrelated ''Environment.get'',
      Submit ''run'', Other ''RunDetails.show'' ''run'', WaitForCompletion ''run'',
      GetMetrics ''run'', Other ''get_file_names'' ''run'',
      Unrelated ''Environment.list'',
      Unrelated ''ComputeTarget'',
      Submit ''run'', Other ''RunDetails.show'' ''run'',
      Unrelated ''ComputeTarget.get_status'',
      WaitForCompletion ''run'',
      GetMetrics ''run'', Other ''get_file_names'' ''run'',
      GetMetrics ''run'', GetMetrics ''run'', RegisterModel ''run'', Unrelated ''Model.list'']"

text \<open>The model-interpretation notebook.\<close>

definition interpret_notebook :: "step list" where
  "interpret_notebook =
     [Submit ''run'', Other ''RunDetails.show'' ''run'', WaitForCompletion ''run'',
      Other ''ExplanationClient.from_run'' ''run'']"

definition notebooks :: "step list list" where
  "notebooks =
     [train_models_notebook, data_drift_notebook, hyperdrive_notebook, automl_notebook,
      compute_notebook, interpret_notebook]"

text \<open>
  The order that is required of the calls. \<open>submission r\<close> is the submitted run that \<open>r\<close>
  belongs to. A run has been created when the submission or the backfill of its
  submission has returned, and it has been waited for when the wait on it, or on a
  run it descends from, has returned. An event is allowed after the events \<open>before\<close>
  if, being a call on a run other than the one that submits it, the run has been
  created before; if, being a \<open>get_metrics\<close> or a \<open>register_model\<close> call, the run has
  also been waited for before; and if, being a return, it follows its call at once.
  A trace is orderly if each of its events is allowed after those before it.
\<close>

fun submission :: "run \<Rightarrow> run" where
  "submission (Submitted n) = Submitted n"
| "submission (Child parent k) = submission parent"

fun creates :: "op \<Rightarrow> bool" where
  "creates SubmitOp = True"
| "creates BackfillOp = True"
| "creates c = False"

fun needs_wait :: "op \<Rightarrow> bool" where
  "needs_wait GetMetricsOp = True"
| "needs_wait RegisterModelOp = True"
| "needs_wait c = False"

definition created :: "event list \<Rightarrow> run \<Rightarrow> bool" where
  "created before r \<longleftrightarrow>
     Return SubmitOp (submission r) \<in> set before \<or> Return BackfillOp (submission r) \<in> set before"

definition waited_for :: "event list \<Rightarrow> run \<Rightarrow> bool" where
  "waited_for before r \<longleftrightarrow> (\<exists>a \<in> set (ancestors r). Return WaitOp a \<in> set before)"

fun allowed_after :: "event list \<Rightarrow> event \<Rightarrow> bool" where
  "allowed_after before (Call c r) =
     ((creates c \<or> created before r) \<and> (needs_wait c \<longrightarrow> waited_for before r))"
| "allowed_after before (Return c r) = (before \<noteq> [] \<and> last before = Call c r)"
| "allowed_after before (Aside name) = True"

inductive orderly :: "event list \<Rightarrow> bool" where
  orderly_Nil: "orderly []"
| orderly_snoc: "orderly t \<Longrightarrow> allowed_after t e \<Longrightarrow> orderly (t @ [e])"

text \<open>
  A check on the text of a notebook: \<open>w\<close> lists the variables whose run, if they hold
  one, has been waited for. \<open>None\<close> means a \<open>get_metrics\<close> or \<open>register_model\<close> on a
  variable that is not in the list.
\<close>

fun check :: "string list \<Rightarrow> step \<Rightarrow> string list option"
  and check_all :: "string list \<Rightarrow> step list \<Rightarrow> string list option" where
  "check w (Submit v) = Some (removeAll v w)"
| "check w (Backfill v) = Some (removeAll v w)"
| "check w (WaitForCompletion v) = Some (v # w)"
| "check w (GetMetrics v) = (if v \<in> set w then Some w else None)"
| "check w (RegisterModel v) = (if v \<in> set w then Some w else None)"
| "check w (GetBestRun v p) = (if p \<in> set w then Some (v # w) else Some (removeAll v w))"
| "check w (ForChildren v p inner) =
     (if p \<in> set w \<and> v \<noteq> p then
        (case check_all (v # w) inner of
           None \<Rightarrow> None
         | Some w' \<Rightarrow> if set (v # w) \<subseteq> set w' then Some w else None)
      else None)"
| "check w (ForMetrics v) = (if v \<in> set w then Some w else None)"
| "check w (Other name v) = Some w"
| "check w (Unrelated name) = Some w"
| "check_all w [] = Some w"
| "check_all w (s # ss) = (case check w s of None \<Rightarrow> None | Some w' \<Rightarrow> check_all w' ss)"

text \<open>
  What the check promises of a state: the trace is orderly, and while the notebook
  has not stopped the run of every variable has been created and the run of every
  listed variable has been waited for.
\<close>

definition safe :: "wf_state \<Rightarrow> string list \<Rightarrow> bool" where
  "safe st w \<longleftrightarrow>
     orderly (trace st) \<and>
     (halted st = None \<longrightarrow>
        (\<forall>v r. vars st v = Some r \<longrightarrow> created (trace st) r) \<and>
        (\<forall>v \<in> set w. \<forall>r. vars st v = Some r \<longrightarrow> waited_for (trace st) r))"

text \<open>Statements that bind no child run and start no backfill; events on submitted
  runs that are no backfill.\<close>

fun flat :: "step \<Rightarrow> bool" where
  "flat (GetBestRun v p) = False"
| "flat (ForChildren v p inner) = False"
| "flat (Backfill v) = False"
| "flat s = True"

fun is_submitted :: "run \<Rightarrow> bool" where
  "is_submitted (Submitted n) = True"
| "is_submitted (Child parent k) = False"

fun on_submitted :: "event \<Rightarrow> bool" where
  "on_submitted (Call c r) = (is_submitted r \<and> c \<noteq> BackfillOp)"
| "on_submitted (Return c r) = (is_submitted r \<and> c \<noteq> BackfillOp)"
| "on_submitted (Aside name) = True"

text \<open>A platform on which the second training run fails and one on which no call raises.\<close>

definition failing_platform :: platform where
  "failing_platform =
     \<lparr>raises = (\<lambda>t e. if e = Call WaitOp (Submitted 1) then Some (OtherException ''ActivityFailed'')
                       else None),
      children = (\<lambda>r. 2), best_of = (\<lambda>r. Some 1), metric_names = (\<lambda>r. [''AUC''])\<rparr>"

definition calm_platform :: platform where
  "calm_platform =
     \<lparr>raises = (\<lambda>t e. None),
      children = (\<lambda>r. 2), best_of = (\<lambda>r. Some 1), metric_names = (\<lambda>r. [''AUC''])\<rparr>"

text \<open>A state that knows submitted runs only.\<close>

definition submitted_only :: "wf_state \<Rightarrow> bool" where
  "submitted_only st \<longleftrightarrow>
     list_all on_submitted (trace st) \<and> (\<forall>v r. vars st v = Some r \<longrightarrow> is_submitted r)"


section \<open>Properties of the scoring client\<close>

lemma auto_predict_cell_sent:
  "sent (auto_predict_cell dumps loads post endpoint key x) = [scoring_request dumps endpoint key x]"
  by (simp add: auto_predict_cell_def Let_def split: sum.splits)

lemma auto_predict_cell_ok:
  assumes "post (scoring_request dumps endpoint key x) = Inr r" and "status_code r = 200"
    and "first_result loads r = Inr v"
  shows "auto_predict_cell dumps loads post endpoint key x =
           \<lparr>sent = [scoring_request dumps endpoint key x],
            stdout = [[Text ''Prediction:'', Value v],
                      [Text (if py_eq_int v 1 then ''Diabetic'' else ''Not Diabetic'')]],
            raised = None\<rparr>"
  using assms by (simp add: auto_predict_cell_def Let_def)

lemma auto_predict_cell_bad_body:
  assumes "post (scoring_request dumps endpoint key x) = Inr r" and "status_code r = 200"
    and "first_result loads r = Inl e"
  shows "auto_predict_cell dumps loads post endpoint key x =
           \<lparr>sent = [scoring_request dumps endpoint key x], stdout = [], raised = Some e\<rparr>"
  using assms by (simp add: auto_predict_cell_def Let_def)

lemma auto_predict_cell_not_200:
  assumes "post (scoring_request dumps endpoint key x) = Inr r" and "status_code r \<noteq> 200"
  shows "auto_predict_cell dumps loads post endpoint key x =
           \<lparr>sent = [scoring_request dumps endpoint key x], stdout = [[Obj r]], raised = None\<rparr>"
  using assms by (simp add: auto_predict_cell_def Let_def)

lemma auto_predict_cell_no_response:
  assumes "post (scoring_request dumps endpoint key x) = Inl e"
  shows "auto_predict_cell dumps loads post endpoint key x =
           \<lparr>sent = [scoring_request dumps endpoint key x], stdout = [], raised = Some e\<rparr>"
  using assms by (simp add: auto_predict_cell_def Let_def)

lemma py_eq_int_one: "py_eq_int v 1 \<longleftrightarrow> v = PInt 1 \<or> v = PFloat 1 \<or> v = PBool True"
  by (cases v) auto

text \<open>
  Claim C3. The auto-predict cell sends exactly one request, whatever happens afterwards:
  to the endpoint, with the serialisation of \<open>{"data": x}\<close> as body, and the two headers
  \<open>Content-Type: application/json\<close> and \<open>Authorization: Bearer <key>\<close>. When a response
  comes back, the prediction line is printed if and only if the status code is 200 and
  the body decodes to a value with a first \<open>result\<close> element, and that line shows this
  element; with status 200 and a body that does not decode the cell raises and prints
  nothing; with any other status it prints the response object and nothing else.
\<close>

theorem scoring_cell_request_and_status_branch:
  "let req = \<lparr>url = endpoint, body = dumps (PDict [(''data'', x)]),
              headers = [(''Content-Type'', ''application/json''),
                         (''Authorization'', ''Bearer '' @ key)]\<rparr>;
       res = auto_predict_cell dumps loads post endpoint key x
   in sent res = [req] \<and>
      (\<forall>r. post req = Inr r \<longrightarrow>
         ((\<exists>v rest. stdout res = [Text ''Prediction:'', Value v] # rest) \<longleftrightarrow>
            status_code r = 200 \<and> (\<exists>v. first_result loads r = Inr v)) \<and>
         (\<forall>v. status_code r = 200 \<and> first_result loads r = Inr v \<longrightarrow>
            (\<exists>label. stdout res = [[Text ''Prediction:'', Value v], [Text label]]) \<and>
            raised res = None) \<and>
         (\<forall>e. status_code r = 200 \<and> first_result loads r = Inl e \<longrightarrow>
            stdout res = [] \<and> raised res = Some e) \<and>
         (status_code r \<noteq> 200 \<longrightarrow> stdout res = [[Obj r]] \<and> raised res = None))"
proof -
  define req where "req = scoring_request dumps endpoint key x"
  define res where "res = auto_predict_cell dumps loads post endpoint key x"
  have req_eq: "req = \<lparr>url = endpoint, body = dumps (PDict [(''data'', x)]),
              headers = [(''Content-Type'', ''application/json''),
                         (''Authorization'', ''Bearer '' @ key)]\<rparr>"
    by (simp add: req_def scoring_request_def)
  have s: "sent res = [req]"
    by (simp add: res_def req_def auto_predict_cell_sent)
  have branches: "((\<exists>v rest. stdout res = [Text ''Prediction:'', Value v] # rest) \<longleftrightarrow>
            status_code r = 200 \<and> (\<exists>v. first_result loads r = Inr v)) \<and>
         (\<forall>v. status_code r = 200 \<and> first_result loads r = Inr v \<longrightarrow>
            (\<exists>label. stdout res = [[Text ''Prediction:'', Value v], [Text label]]) \<and>
            raised res = None) \<and>
         (\<forall>e. status_code r = 200 \<and> first_result loads r = Inl e \<longrightarrow>
            stdout res = [] \<and> raised res = Some e) \<and>
         (status_code r \<noteq> 200 \<longrightarrow> stdout res = [[Obj r]] \<and> raised res = None)"
    if p: "post req = Inr r" for r
  proof (cases "status_code r = 200")
    case False
    from p False have "res = \<lparr>sent = [req], stdout = [[Obj r]], raised = None\<rparr>"
      unfolding res_def req_def by (rule auto_predict_cell_not_200)
    with False show ?thesis by simp
  next
    case True
    show ?thesis
    proof (cases "first_result loads r")
      case (Inl e)
      from p True Inl have "res = \<lparr>sent = [req], stdout = [], raised = Some e\<rparr>"
        unfolding res_def req_def by (rule auto_predict_cell_bad_body)
      with True Inl show ?thesis by simp
    next
      case (Inr v)
      from p True Inr have "res = \<lparr>sent = [req],
            stdout = [[Text ''Prediction:'', Value v],
                      [Text (if py_eq_int v 1 then ''Diabetic'' else ''Not Diabetic'')]],
            raised = None\<rparr>"
        unfolding res_def req_def by (rule auto_predict_cell_ok)
      with True Inr show ?thesis by simp
    qed
  qed
  from s branches show ?thesis
    unfolding Let_def req_eq [symmetric] res_def [symmetric] by blast
qed

theorem scoring_cell_request_and_status_branch_witness:
  "post_returning 200 ''body-healthy''
       \<lparr>url = ''http://host/score'', body = ''data:r'',
        headers = [(''Content-Type'', ''application/json''), (''Authorization'', ''Bearer k'')]\<rparr>
     = Inr \<lparr>status_code = 200, content = ''body-healthy''\<rparr> \<and>
   first_result example_loads \<lparr>status_code = 200, content = ''body-healthy''\<rparr> = Inr (PInt 0) \<and>
   stdout (auto_predict_cell example_dumps example_loads (post_returning 200 ''body-healthy'')
             ''http://host/score'' ''k'' example_patient)
     = [[Text ''Prediction:'', Value (PInt 0)], [Text ''Not Diabetic'']] \<and>
   first_result example_loads \<lparr>status_code = 200, content = ''garbage''\<rparr> = Inl JSONDecodeError \<and>
   raised (auto_predict_cell example_dumps example_loads (post_returning 200 ''garbage'')
             ''http://host/score'' ''k'' example_patient) = Some JSONDecodeError \<and>
   stdout (auto_predict_cell example_dumps example_loads (post_returning 404 ''body-healthy'')
             ''http://host/score'' ''k'' example_patient)
     = [[Obj \<lparr>status_code = 404, content = ''body-healthy''\<rparr>]]"
proof -
  have d: "example_dumps (PDict [(''data'', example_patient)]) = ''data:r''"
    by (simp add: example_dumps_def example_patient_def)
  have f0: "first_result example_loads \<lparr>status_code = 200, content = ''body-healthy''\<rparr> = Inr (PInt 0)"
    by (simp add: first_result_def response_json_def json_loads_def example_loads_def seq_index_def)
  have f1: "first_result example_loads \<lparr>status_code = 200, content = ''garbage''\<rparr> = Inl JSONDecodeError"
    by (simp add: first_result_def response_json_def json_loads_def example_loads_def)
  note t = scoring_cell_request_and_status_branch
             [where dumps = example_dumps and x = example_patient and key = "''k''"
                and loads = example_loads and endpoint = "''http://host/score''",
              unfolded Let_def d]
  from t [where post = "post_returning 200 ''body-healthy''"] f0
  have a: "stdout (auto_predict_cell example_dumps example_loads (post_returning 200 ''body-healthy'')
             ''http://host/score'' ''k'' example_patient)
     = [[Text ''Prediction:'', Value (PInt 0)], [Text ''Not Diabetic'']]"
    by (simp add: post_returning_def auto_predict_cell_def scoring_request_def d)
  from t [where post = "post_returning 200 ''garbage''"] f1
  have b: "raised (auto_predict_cell example_dumps example_loads (post_returning 200 ''garbage'')
             ''http://host/score'' ''k'' example_patient) = Some JSONDecodeError"
    by (simp add: post_returning_def)
  from t [where post = "post_returning 404 ''body-healthy''"]
  have c: "stdout (auto_predict_cell example_dumps example_loads (post_returning 404 ''body-healthy'')
             ''http://host/score'' ''k'' example_patient)
     = [[Obj \<lparr>status_code = 404, content = ''body-healthy''\<rparr>]]"
    by (simp add: post_returning_def)
  from a b c f0 f1 show ?thesis by (simp add: post_returning_def)
qed

text \<open>
  Claim C9. On a 200 response whose body decodes to a value with a first \<open>result\<close>
  element \<open>v\<close>, the cell prints the prediction line and then exactly one label:
  \<open>Diabetic\<close> if and only if \<open>v == 1\<close> holds in Python, which is the case for the integer
  1 and for the values Python counts equal to it (the float 1.0 and \<open>True\<close>), and
  \<open>Not Diabetic\<close> for every other value, 0 and values of any other type included.
\<close>

theorem prediction_label_iff_equals_one:
  assumes "post (scoring_request dumps endpoint key x) = Inr r"
    and "status_code r = 200"
    and "first_result loads r = Inr v"
  shows "let out = stdout (auto_predict_cell dumps loads post endpoint key x)
         in out = [[Text ''Prediction:'', Value v],
                   [Text (if py_eq_int v 1 then ''Diabetic'' else ''Not Diabetic'')]] \<and>
            ([Text ''Diabetic''] \<in> set out \<longleftrightarrow> py_eq_int v 1) \<and>
            ([Text ''Not Diabetic''] \<in> set out \<longleftrightarrow> \<not> py_eq_int v 1) \<and>
            (py_eq_int v 1 \<longleftrightarrow> v = PInt 1 \<or> v = PFloat 1 \<or> v = PBool True)"
proof -
  have "stdout (auto_predict_cell dumps loads post endpoint key x) =
          [[Text ''Prediction:'', Value v],
           [Text (if py_eq_int v 1 then ''Diabetic'' else ''Not Diabetic'')]]"
    using assms by (simp add: auto_predict_cell_ok)
  then show ?thesis
    by (simp add: Let_def py_eq_int_one)
qed

theorem prediction_label_iff_equals_one_witness:
  "post_returning 200 ''body-diabetic'' (scoring_request example_dumps ''http://host/score'' ''k'' example_patient)
     = Inr \<lparr>status_code = 200, content = ''body-diabetic''\<rparr> \<and>
   status_code \<lparr>status_code = 200, content = ''body-diabetic''\<rparr> = 200 \<and>
   first_result example_loads \<lparr>status_code = 200, content = ''body-diabetic''\<rparr> = Inr (PInt 1) \<and>
   stdout (auto_predict_cell example_dumps example_loads (post_returning 200 ''body-diabetic'')
             ''http://host/score'' ''k'' example_patient)
     = [[Text ''Prediction:'', Value (PInt 1)], [Text ''Diabetic'']]"
proof -
  have p: "post_returning 200 ''body-diabetic'' (scoring_request example_dumps ''http://host/score'' ''k'' example_patient)
     = Inr \<lparr>status_code = 200, content = ''body-diabetic''\<rparr>"
    by (simp add: post_returning_def)
  have s: "status_code \<lparr>status_code = 200, content = ''body-diabetic''\<rparr> = 200"
    by simp
  have f: "first_result example_loads \<lparr>status_code = 200, content = ''body-diabetic''\<rparr> = Inr (PInt 1)"
    by (simp add: first_result_def response_json_def json_loads_def example_loads_def seq_index_def)
  from prediction_label_iff_equals_one
         [where post = "post_returning 200 ''body-diabetic''" and dumps = example_dumps
            and endpoint = "''http://host/score''" and key = "''k''" and x = example_patient
            and loads = example_loads, OF p s f] p s f
  show ?thesis
    by (simp add: Let_def)
qed

section \<open>Properties of the exception handlers\<close>

lemma compute_cell_found:
  assumes "get_compute_target pf cluster_name = Inr c"
  shows "compute_target_cell pf st =
           (st\<lparr>training_cluster := Some c,
               calls := calls st @ [GetComputeTarget cluster_name],
               out := out st @ [[Text ''Found existing cluster, use it.'']]\<rparr>, None)"
  using assms by (simp add: compute_target_cell_def called_def prints_def Let_def)

lemma compute_cell_other_error:
  assumes "get_compute_target pf cluster_name = Inl e" and "\<not> is_ComputeTargetException e"
  shows "compute_target_cell pf st = (st\<lparr>calls := calls st @ [GetComputeTarget cluster_name]\<rparr>, Some e)"
  using assms by (simp add: compute_target_cell_def called_def Let_def)

lemma compute_cell_not_found:
  assumes "get_compute_target pf cluster_name = Inl e" and "is_ComputeTargetException e"
  shows "compute_target_cell pf st =
           cluster_not_found_handler pf (st\<lparr>calls := calls st @ [GetComputeTarget cluster_name]\<rparr>)"
  using assms by (simp add: compute_target_cell_def called_def Let_def)

lemma create_cluster_calls:
  "\<exists>cs. calls (fst (create_cluster pf st)) = calls st @ cs \<and>
        (cs = [ProvisioningConfiguration ''STANDARD_DS11_V2'' 2] \<or>
         (\<exists>cfg. cs = [ProvisioningConfiguration ''STANDARD_DS11_V2'' 2,
                      CreateComputeTarget cluster_name cfg]) \<or>
         (\<exists>cfg c. cs = [ProvisioningConfiguration ''STANDARD_DS11_V2'' 2,
                        CreateComputeTarget cluster_name cfg, ClusterWaitForCompletion c]))"
  by (auto simp add: create_cluster_def called_def prints_def Let_def split: sum.splits prod.splits)

lemma handler_calls:
  "calls (fst (cluster_not_found_handler pf st)) = calls (fst (create_cluster pf st))"
  by (auto simp add: cluster_not_found_handler_def print_exception_def prints_def
      split: prod.splits option.splits)

lemma handler_prints_failure:
  assumes "snd (create_cluster pf st) = Some ex" and "is_Exception ex"
  shows "cluster_not_found_handler pf st =
           ((fst (create_cluster pf st))\<lparr>out := out (fst (create_cluster pf st)) @ [[Exc ex]]\<rparr>, None)"
  using assms by (auto simp add: cluster_not_found_handler_def print_exception_def prints_def
      split: prod.splits option.splits)

lemma designer_http_error:
  assumes "urlopen (designer_request dumps endpoint key x) = Inl (HTTPError code info err_body)"
  shows "designer_cell dumps loads urlopen endpoint key x =
           \<lparr>sent = [designer_request dumps endpoint key x],
            stdout = fst (http_error_handler loads code info err_body),
            raised = snd (http_error_handler loads code info err_body)\<rparr>"
  using assms
  by (simp add: designer_cell_def designer_try_def and_then_def Let_def split: prod.splits)

lemma http_error_handler_prints:
  "\<exists>tl. fst (http_error_handler loads code info err_body) =
          [Text ''The request failed with status code: '', Value (PInt code)] # [Text info] # tl \<and>
        (case loads err_body of Inl e \<Rightarrow> tl = [] \<and> snd (http_error_handler loads code info err_body) = Some e
         | Inr v \<Rightarrow> tl = [[Value v]] \<and> snd (http_error_handler loads code info err_body) = None)"
  by (simp add: http_error_handler_def Let_def split: sum.splits)

lemma designer_sent: "sent (designer_cell dumps loads urlopen endpoint key x) = [designer_request dumps endpoint key x]"
  by (simp add: designer_cell_def Let_def split: prod.splits option.splits exn.splits)

lemma dataset_register_fails:
  assumes "''diabetes dataset'' \<notin> set (registered_datasets pf)"
    and "upload_files pf [''./data/diabetes.csv'', ''./data/diabetes2.csv''] ''diabetes-data/'' = (shown, None)"
    and "from_delimited_files pf ''diabetes-data/*.csv'' = Inr d"
    and "register_dataset pf d ''diabetes dataset'' = Inl ex" and "is_Exception ex"
  shows "dataset_cell pf st =
          (st\<lparr>tab_data_set := Some d,
              calls := calls st @ [UploadFiles [''./data/diabetes.csv'', ''./data/diabetes2.csv''] ''diabetes-data/'',
                                   FromDelimitedFiles ''diabetes-data/*.csv'',
                                   RegisterDataset d ''diabetes dataset''],
              out := out st @ shown @ [[Exc ex]]\<rparr>, None)"
  using assms
  by (simp add: dataset_cell_def register_try_def called_def prints_def print_exception_def Let_def)

text \<open>
  Claim C1, as the code has it. The \<open>HTTPError\<close> handler of the designer cell and the
  \<open>except Exception as ex\<close> handlers of the compute and dataset cells only print: after
  an \<open>HTTPError\<close> the one request stays the only one and the output is the status line,
  the headers and the decoded error body; a failure while creating the cluster, or
  while registering the dataset, is printed as the last line, no exception leaves the
  cell and no call is repeated. The \<open>except ComputeTargetException\<close> handler is different:
  it asks for a configuration, creates the cluster and waits for it, once, and on
  success the variable \<open>training_cluster\<close> holds the created cluster.
\<close>

theorem handlers_print_except_cluster_creation:
  "(urlopen (designer_request dumps endpoint key x) = Inl (HTTPError code info err_body) \<longrightarrow>
      (let res = designer_cell dumps loads urlopen endpoint key x in
         sent res = [designer_request dumps endpoint key x] \<and>
         (\<exists>tl. stdout res =
                  [Text ''The request failed with status code: '', Value (PInt code)]
                  # [Text info] # tl \<and>
               (case loads err_body of
                  Inl e \<Rightarrow> tl = [] \<and> raised res = Some e
                | Inr v \<Rightarrow> tl = [[Value v]] \<and> raised res = None)))) \<and>
   (is_ComputeTargetException e \<and> get_compute_target pf cluster_name = Inl e \<longrightarrow>
      (let st1 = st\<lparr>calls := calls st @ [GetComputeTarget cluster_name]\<rparr>;
           attempt = create_cluster pf st1;
           res = compute_target_cell pf st
       in (\<forall>ex. snd attempt = Some ex \<and> is_Exception ex \<longrightarrow>
             res = ((fst attempt)\<lparr>out := out (fst attempt) @ [[Exc ex]]\<rparr>, None)) \<and>
          (snd attempt = None \<longrightarrow> res = attempt) \<and>
          (\<exists>cs. calls (fst res) = calls st @ GetComputeTarget cluster_name # cs \<and>
             (cs = [ProvisioningConfiguration ''STANDARD_DS11_V2'' 2] \<or>
              (\<exists>cfg. cs = [ProvisioningConfiguration ''STANDARD_DS11_V2'' 2,
                           CreateComputeTarget cluster_name cfg]) \<or>
              (\<exists>cfg c. cs = [ProvisioningConfiguration ''STANDARD_DS11_V2'' 2,
                             CreateComputeTarget cluster_name cfg,
                             ClusterWaitForCompletion c]))))) \<and>
   (''diabetes dataset'' \<notin> set (registered_datasets pf) \<and>
    upload_files pf [''./data/diabetes.csv'', ''./data/diabetes2.csv''] ''diabetes-data/''
      = (shown, None) \<and>
    from_delimited_files pf ''diabetes-data/*.csv'' = Inr d \<and>
    register_dataset pf d ''diabetes dataset'' = Inl ex' \<and> is_Exception ex' \<longrightarrow>
      dataset_cell pf st =
        (st\<lparr>tab_data_set := Some d,
            calls := calls st @
              [UploadFiles [''./data/diabetes.csv'', ''./data/diabetes2.csv''] ''diabetes-data/'',
               FromDelimitedFiles ''diabetes-data/*.csv'',
               RegisterDataset d ''diabetes dataset''],
            out := out st @ shown @ [[Exc ex']]\<rparr>, None))"
proof (intro conjI impI)
  assume h: "urlopen (designer_request dumps endpoint key x) = Inl (HTTPError code info err_body)"
  show "let res = designer_cell dumps loads urlopen endpoint key x in
         sent res = [designer_request dumps endpoint key x] \<and>
         (\<exists>tl. stdout res =
                  [Text ''The request failed with status code: '', Value (PInt code)]
                  # [Text info] # tl \<and>
               (case loads err_body of
                  Inl e \<Rightarrow> tl = [] \<and> raised res = Some e
                | Inr v \<Rightarrow> tl = [[Value v]] \<and> raised res = None))"
    using http_error_handler_prints [of loads code info err_body] h
    by (auto simp add: designer_http_error Let_def split: sum.splits)
next
  assume h: "is_ComputeTargetException e \<and> get_compute_target pf cluster_name = Inl e"
  define st1 where "st1 = st\<lparr>calls := calls st @ [GetComputeTarget cluster_name]\<rparr>"
  have cell: "compute_target_cell pf st = cluster_not_found_handler pf st1"
    using h by (simp add: compute_cell_not_found st1_def)
  have a: "\<forall>ex. snd (create_cluster pf st1) = Some ex \<and> is_Exception ex \<longrightarrow>
             compute_target_cell pf st =
               ((fst (create_cluster pf st1))\<lparr>out := out (fst (create_cluster pf st1)) @ [[Exc ex]]\<rparr>, None)"
    by (simp add: cell handler_prints_failure)
  have b: "snd (create_cluster pf st1) = None \<longrightarrow> compute_target_cell pf st = create_cluster pf st1"
    by (auto simp add: cell cluster_not_found_handler_def split: prod.splits)
  have c: "\<exists>cs. calls (fst (compute_target_cell pf st)) = calls st @ GetComputeTarget cluster_name # cs \<and>
             (cs = [ProvisioningConfiguration ''STANDARD_DS11_V2'' 2] \<or>
              (\<exists>cfg. cs = [ProvisioningConfiguration ''STANDARD_DS11_V2'' 2,
                           CreateComputeTarget cluster_name cfg]) \<or>
              (\<exists>cfg c. cs = [ProvisioningConfiguration ''STANDARD_DS11_V2'' 2,
                             CreateComputeTarget cluster_name cfg,
                             ClusterWaitForCompletion c]))"
    using create_cluster_calls [of pf st1]
    by (simp add: cell handler_calls) (auto simp add: st1_def)
  from a b c show "let st1 = st\<lparr>calls := calls st @ [GetComputeTarget cluster_name]\<rparr>;
           attempt = create_cluster pf st1;
           res = compute_target_cell pf st
       in (\<forall>ex. snd attempt = Some ex \<and> is_Exception ex \<longrightarrow>
             res = ((fst attempt)\<lparr>out := out (fst attempt) @ [[Exc ex]]\<rparr>, None)) \<and>
          (snd attempt = None \<longrightarrow> res = attempt) \<and>
          (\<exists>cs. calls (fst res) = calls st @ GetComputeTarget cluster_name # cs \<and>
             (cs = [ProvisioningConfiguration ''STANDARD_DS11_V2'' 2] \<or>
              (\<exists>cfg. cs = [ProvisioningConfiguration ''STANDARD_DS11_V2'' 2,
                           CreateComputeTarget cluster_name cfg]) \<or>
              (\<exists>cfg c. cs = [ProvisioningConfiguration ''STANDARD_DS11_V2'' 2,
                             CreateComputeTarget cluster_name cfg,
                             ClusterWaitForCompletion c])))"
    unfolding Let_def st1_def [symmetric] by blast
next
  assume h: "''diabetes dataset'' \<notin> set (registered_datasets pf) \<and>
    upload_files pf [''./data/diabetes.csv'', ''./data/diabetes2.csv''] ''diabetes-data/''
      = (shown, None) \<and>
    from_delimited_files pf ''diabetes-data/*.csv'' = Inr d \<and>
    register_dataset pf d ''diabetes dataset'' = Inl ex' \<and> is_Exception ex'"
  then show "dataset_cell pf st =
        (st\<lparr>tab_data_set := Some d,
            calls := calls st @
              [UploadFiles [''./data/diabetes.csv'', ''./data/diabetes2.csv''] ''diabetes-data/'',
               FromDelimitedFiles ''diabetes-data/*.csv'',
               RegisterDataset d ''diabetes dataset''],
            out := out st @ shown @ [[Exc ex']]\<rparr>, None)"
    by (intro dataset_register_fails) simp_all
qed

theorem handlers_print_except_cluster_creation_witness:
  "urlopen_failing 404 (designer_request example_dumps ''http://host/score'' ''k'' example_patient)
     = Inl (HTTPError 404 ''Content-Length: 0'' ''body-healthy'') \<and>
   stdout (designer_cell example_dumps example_loads (urlopen_failing 404)
             ''http://host/score'' ''k'' example_patient)
     = [[Text ''The request failed with status code: '', Value (PInt 404)],
        [Text ''Content-Length: 0''], [Value (PStr ''text-healthy'')]] \<and>
   is_ComputeTargetException (ComputeTargetException ''ComputeTargetNotFound'') \<and>
   get_compute_target sdk_refusing cluster_name
     = Inl (ComputeTargetException ''ComputeTargetNotFound'') \<and>
   compute_target_cell sdk_refusing fresh_nb =
     (\<lparr>training_cluster = None, tab_data_set = None,
       calls = [GetComputeTarget ''dp100cluster'',
                ProvisioningConfiguration ''STANDARD_DS11_V2'' 2,
                CreateComputeTarget ''dp100cluster''
                  \<lparr>vm_size = ''STANDARD_DS11_V2'', max_nodes = 2\<rparr>],
       out = [[Exc (OtherException ''quota exceeded'')]]\<rparr>, None) \<and>
   dataset_cell sdk_refusing fresh_nb =
     (\<lparr>training_cluster = None, tab_data_set = Some (TabularDataset ''diabetes-data/*.csv''),
       calls = [UploadFiles [''./data/diabetes.csv'', ''./data/diabetes2.csv''] ''diabetes-data/'',
                FromDelimitedFiles ''diabetes-data/*.csv'',
                RegisterDataset (TabularDataset ''diabetes-data/*.csv'') ''diabetes dataset''],
       out = [[Exc (OtherException ''forbidden'')]]\<rparr>, None)"
proof -
  have att: "create_cluster sdk_refusing (fresh_nb\<lparr>calls := calls fresh_nb @ [GetComputeTarget cluster_name]\<rparr>)
      = (\<lparr>training_cluster = None, tab_data_set = None,
          calls = [GetComputeTarget ''dp100cluster'',
                   ProvisioningConfiguration ''STANDARD_DS11_V2'' 2,
                   CreateComputeTarget ''dp100cluster''
                     \<lparr>vm_size = ''STANDARD_DS11_V2'', max_nodes = 2\<rparr>],
          out = []\<rparr>, Some (OtherException ''quota exceeded''))"
    by (simp add: create_cluster_def sdk_refusing_def fresh_nb_def called_def cluster_name_def Let_def)
  note t = handlers_print_except_cluster_creation
             [where urlopen = "urlopen_failing 404" and dumps = example_dumps
                and endpoint = "''http://host/score''" and key = "''k''" and x = example_patient
                and code = 404 and info = "''Content-Length: 0''" and err_body = "''body-healthy''"
                and loads = example_loads
                and e = "ComputeTargetException ''ComputeTargetNotFound''" and pf = sdk_refusing
                and st = fresh_nb and shown = "[]" and d = "TabularDataset ''diabetes-data/*.csv''"
                and ex' = "OtherException ''forbidden''"]
  have g: "get_compute_target sdk_refusing cluster_name
     = Inl (ComputeTargetException ''ComputeTargetNotFound'')"
    by (simp add: sdk_refusing_def)
  have u: "urlopen_failing 404 (designer_request example_dumps ''http://host/score'' ''k'' example_patient)
     = Inl (HTTPError 404 ''Content-Length: 0'' ''body-healthy'')"
    by (simp add: urlopen_failing_def)
  have l: "example_loads ''body-healthy'' = Inr (PStr ''text-healthy'')"
    by (simp add: example_loads_def)
  from t have d1: "stdout (designer_cell example_dumps example_loads (urlopen_failing 404)
             ''http://host/score'' ''k'' example_patient)
     = [[Text ''The request failed with status code: '', Value (PInt 404)],
        [Text ''Content-Length: 0''], [Value (PStr ''text-healthy'')]]"
    using u l by (auto simp add: Let_def)
  from t have d2: "compute_target_cell sdk_refusing fresh_nb =
     (\<lparr>training_cluster = None, tab_data_set = None,
       calls = [GetComputeTarget ''dp100cluster'',
                ProvisioningConfiguration ''STANDARD_DS11_V2'' 2,
                CreateComputeTarget ''dp100cluster''
                  \<lparr>vm_size = ''STANDARD_DS11_V2'', max_nodes = 2\<rparr>],
       out = [[Exc (OtherException ''quota exceeded'')]]\<rparr>, None)"
    using g att by (simp add: Let_def)
  from t have d3: "dataset_cell sdk_refusing fresh_nb =
     (\<lparr>training_cluster = None, tab_data_set = Some (TabularDataset ''diabetes-data/*.csv''),
       calls = [UploadFiles [''./data/diabetes.csv'', ''./data/diabetes2.csv''] ''diabetes-data/'',
                FromDelimitedFiles ''diabetes-data/*.csv'',
                RegisterDataset (TabularDataset ''diabetes-data/*.csv'') ''diabetes dataset''],
       out = [[Exc (OtherException ''forbidden'')]]\<rparr>, None)"
    by (simp add: sdk_refusing_def fresh_nb_def)
  from u g d1 d2 d3 show ?thesis by simp
qed

text \<open>
  Claim C1 as stated fails at the compute-target-not-found case: in a workspace
  without the cluster the handler prints nothing about the exception it caught, makes
  three further SDK calls and assigns \<open>training_cluster\<close>.
\<close>

theorem cluster_not_found_handler_counterexample:
  "get_compute_target sdk_without_cluster cluster_name
     = Inl (ComputeTargetException ''ComputeTargetNotFound'') \<and>
   compute_target_cell sdk_without_cluster fresh_nb =
     (\<lparr>training_cluster = Some (ComputeTarget ''dp100cluster''), tab_data_set = None,
       calls = [GetComputeTarget ''dp100cluster'',
                ProvisioningConfiguration ''STANDARD_DS11_V2'' 2,
                CreateComputeTarget ''dp100cluster''
                  \<lparr>vm_size = ''STANDARD_DS11_V2'', max_nodes = 2\<rparr>,
                ClusterWaitForCompletion (ComputeTarget ''dp100cluster'')],
       out = [[Text ''Succeeded'']]\<rparr>, None) \<and>
   training_cluster (fst (compute_target_cell sdk_without_cluster fresh_nb))
     \<noteq> training_cluster fresh_nb"
  by (simp add: compute_target_cell_def cluster_not_found_handler_def create_cluster_def
      sdk_without_cluster_def fresh_nb_def called_def prints_def cluster_name_def Let_def)

section \<open>Properties of the simulated-drift generator\<close>





lemma expected_writes_Cons:
  "expected_writes fl today strftime t (w # ws) d =
     (drift_file_path strftime (today t - 7 * int w), modify_data fl d)
     # expected_writes fl today strftime (Suc t) ws (modify_data fl d)"
  by (simp add: expected_writes_def upt_conv_Cons map_Suc_upt [symmetric] funpow_swap1 del: upt_Suc)


lemma drift_iteration_cases:
  "drift_iteration fl today strftime writable w st =
     (if writable (drift_file_path strftime (today (clock_reads st) - 7 * int w))
      then (st\<lparr>clock_reads := Suc (clock_reads st), data := modify_data fl (data st),
               written := written st @ [(drift_file_path strftime (today (clock_reads st) - 7 * int w),
                                         modify_data fl (data st))],
               file_paths := file_paths st @ [drift_file_path strftime (today (clock_reads st) - 7 * int w)]\<rparr>,
            None)
      else (st\<lparr>clock_reads := Suc (clock_reads st), data := modify_data fl (data st)\<rparr>, Some OSError))"
  by (simp add: drift_iteration_def Let_def)

lemma drift_loop_complete:
  assumes "\<forall>i<length ws. writable (fst (expected_writes fl today strftime (clock_reads st) ws (data st) ! i))"
  shows "snd (drift_loop fl today strftime writable ws st) = None \<and>
         data (fst (drift_loop fl today strftime writable ws st)) = (modify_data fl ^^ length ws) (data st) \<and>
         written (fst (drift_loop fl today strftime writable ws st)) =
           written st @ expected_writes fl today strftime (clock_reads st) ws (data st) \<and>
         file_paths (fst (drift_loop fl today strftime writable ws st)) =
           file_paths st @ map fst (expected_writes fl today strftime (clock_reads st) ws (data st))"
  using assms
proof (induction ws arbitrary: st)
  case Nil
  show ?case by (simp add: expected_writes_def)
next
  case (Cons w ws)
  let ?p = "drift_file_path strftime (today (clock_reads st) - 7 * int w)"
  let ?st' = "st\<lparr>clock_reads := Suc (clock_reads st), data := modify_data fl (data st),
               written := written st @ [(?p, modify_data fl (data st))],
               file_paths := file_paths st @ [?p]\<rparr>"
  from Cons.prems have w0: "writable ?p"
    by (auto simp add: expected_writes_Cons)
  from Cons.prems
  have rest: "\<forall>i<length ws. writable (fst (expected_writes fl today strftime (clock_reads ?st') ws (data ?st') ! i))"
    by (auto simp add: expected_writes_Cons)
  have step: "drift_loop fl today strftime writable (w # ws) st = drift_loop fl today strftime writable ws ?st'"
    using w0 by (simp add: drift_iteration_cases)
  have sel: "clock_reads ?st' = Suc (clock_reads st)" "data ?st' = modify_data fl (data st)"
    "written ?st' = written st @ [(?p, modify_data fl (data st))]"
    "file_paths ?st' = file_paths st @ [?p]"
    by simp_all
  note ih = Cons.IH [OF rest, unfolded sel]
  show ?case
    unfolding step expected_writes_Cons
    using ih by (simp add: funpow_swap1)
qed

lemma drift_loop_returned:
  assumes "snd (drift_loop fl today strftime writable ws st) = None"
  shows "\<forall>i<length ws. writable (fst (expected_writes fl today strftime (clock_reads st) ws (data st) ! i))"
  using assms
proof (induction ws arbitrary: st)
  case Nil
  show ?case by simp
next
  case (Cons w ws)
  let ?p = "drift_file_path strftime (today (clock_reads st) - 7 * int w)"
  let ?st' = "st\<lparr>clock_reads := Suc (clock_reads st), data := modify_data fl (data st),
               written := written st @ [(?p, modify_data fl (data st))],
               file_paths := file_paths st @ [?p]\<rparr>"
  have w0: "writable ?p"
    using Cons.prems by (auto simp add: drift_iteration_cases split: if_splits)
  then have step: "drift_loop fl today strftime writable (w # ws) st = drift_loop fl today strftime writable ws ?st'"
    by (simp add: drift_iteration_cases)
  from Cons.IH [of ?st'] Cons.prems step
  have "\<forall>i<length ws. writable (fst (expected_writes fl today strftime (Suc (clock_reads st)) ws (modify_data fl (data st)) ! i))"
    by simp
  with w0 show ?case
    by (auto simp add: expected_writes_Cons nth_Cons split: nat.splits)
qed

lemma expected_writes_contents:
  "map snd (expected_writes fl today strftime t ws d) = map (\<lambda>i. (modify_data fl ^^ Suc i) d) [0..<length ws]"
  by (simp add: expected_writes_def comp_def)


lemma weeknos_nth: "i < 6 \<Longrightarrow> int (weeknos ! i) = 5 - int i"
  by (simp add: weeknos_def rev_nth)


lemma generate_complete:
  assumes wr: "\<forall>k\<in>{1..6}. writable (drift_file_path strftime (today (k - 1) - 7 * (6 - int k)))"
  shows "\<exists>st. generate_drift_data fl today strftime writable (Inr d) = Inr (st, None) \<and>
           data st = (modify_data fl ^^ 6) d \<and>
           written st = expected_writes fl today strftime 0 weeknos d \<and>
           file_paths st = map fst (written st)"
proof -
  let ?st0 = "\<lparr>data = d, written = [], file_paths = [], clock_reads = 0\<rparr>"
  have len: "length weeknos = 6" by (simp add: weeknos_def)
  have "\<forall>i<length weeknos. writable (fst (expected_writes fl today strftime (clock_reads ?st0) weeknos (data ?st0) ! i))"
  proof (intro allI impI)
    fix i assume "i < length weeknos"
    then have i: "i < 6" by (simp add: len)
    then have "Suc i \<in> {1..6}" by simp
    with wr have "writable (drift_file_path strftime (today (Suc i - 1) - 7 * (6 - int (Suc i))))"
      by blast
    then have "writable (drift_file_path strftime (today i - 7 * (5 - int i)))"
      by simp
    then show "writable (fst (expected_writes fl today strftime (clock_reads ?st0) weeknos (data ?st0) ! i))"
      using i by (simp add: expected_writes_def len weeknos_nth [OF i])
  qed
  from drift_loop_complete [OF this]
  show ?thesis
    by (simp add: generate_drift_data_def len prod_eq_iff)
qed

lemma generate_returned:
  assumes "generate_drift_data fl today strftime writable (Inr d) = Inr (st, None)"
  shows "data st = (modify_data fl ^^ 6) d \<and>
         written st = expected_writes fl today strftime 0 weeknos d"
proof -
  let ?st0 = "\<lparr>data = d, written = [], file_paths = [], clock_reads = 0\<rparr>"
  have len: "length weeknos = 6" by (simp add: weeknos_def)
  from assms have run: "drift_loop fl today strftime writable weeknos ?st0 = (st, None)"
    by (simp add: generate_drift_data_def)
  then have "snd (drift_loop fl today strftime writable weeknos ?st0) = None" by simp
  from drift_loop_complete [OF drift_loop_returned [OF this]] run
  show ?thesis by (simp add: len)
qed




text \<open>
  Claim C2, as the code has it. The generator is a local computation whose output
  contents are determined by its input: two runs on the same table that both
  complete write the same sequence of tables and end with the same dataframe,
  whatever the days on which they run, the names they give the files and the
  column arithmetic.
\<close>

theorem drift_contents_determined_by_input:
  assumes "generate_drift_data fl today strftime writable (Inr d) = Inr (st, None)"
    and "generate_drift_data fl today' strftime' writable' (Inr d) = Inr (st', None)"
  shows "map snd (written st) = map snd (written st') \<and> data st = data st'"
  using generate_returned [OF assms(1)] generate_returned [OF assms(2)]
  by (simp add: expected_writes_contents)


lemma weeknos_list: "weeknos = [5, 4, 3, 2, 1, 0]"
  unfolding weeknos_def by code_simp








lemma generate_example_run:
  "\<exists>st. generate_drift_data exact_ops (\<lambda>n. day) strftime_2021 (\<lambda>p. True) (Inr two_patients)
          = Inr (st, None) \<and>
        written st = expected_writes exact_ops (\<lambda>n. day) strftime_2021 0 weeknos two_patients"
  using generate_complete [where writable = "\<lambda>p. True" and fl = exact_ops and d = two_patients
      and today = "\<lambda>n. day" and strftime = strftime_2021]
  by auto

theorem drift_contents_determined_by_input_witness:
  "(let run = projr (generate_drift_data exact_ops (\<lambda>n. 737866) strftime_2021 (\<lambda>p. True)
                       (Inr two_patients));
        run' = projr (generate_drift_data exact_ops (\<lambda>n. 737873) strftime_2021 (\<lambda>p. True)
                       (Inr two_patients))
    in generate_drift_data exact_ops (\<lambda>n. 737866) strftime_2021 (\<lambda>p. True) (Inr two_patients)
         = Inr (fst run, None) \<and>
       generate_drift_data exact_ops (\<lambda>n. 737873) strftime_2021 (\<lambda>p. True) (Inr two_patients)
         = Inr (fst run', None) \<and>
       map snd (written (fst run)) = map snd (written (fst run')) \<and>
       data (fst run) = data (fst run'))"
proof -
  from generate_example_run [of 737866] obtain st where
    a: "generate_drift_data exact_ops (\<lambda>n. 737866) strftime_2021 (\<lambda>p. True) (Inr two_patients)
          = Inr (st, None)"
    by blast
  from generate_example_run [of 737873] obtain st' where
    b: "generate_drift_data exact_ops (\<lambda>n. 737873) strftime_2021 (\<lambda>p. True) (Inr two_patients)
          = Inr (st', None)"
    by blast
  from drift_contents_determined_by_input [OF a b] a b show ?thesis
    by (simp add: Let_def)
qed

lemma example_paths:
  "map fst (expected_writes exact_ops (\<lambda>n. 737866) strftime_2021 0 weeknos two_patients) =
     [''data/diabetes_2021-02-10.csv'', ''data/diabetes_2021-02-17.csv'',
      ''data/diabetes_2021-02-24.csv'', ''data/diabetes_2021-03-03.csv'',
      ''data/diabetes_2021-03-10.csv'', ''data/diabetes_2021-03-17.csv'']"
  "map fst (expected_writes exact_ops (\<lambda>n. 737873) strftime_2021 0 weeknos two_patients) =
     [''data/diabetes_2021-02-17.csv'', ''data/diabetes_2021-02-24.csv'',
      ''data/diabetes_2021-03-03.csv'', ''data/diabetes_2021-03-10.csv'',
      ''data/diabetes_2021-03-17.csv'', ''data/diabetes_2021-03-24.csv'']"
  by (simp_all add: expected_writes_def weeknos_list upt_conv_Cons drift_file_path_def
      strftime_2021_def del: upt_Suc)

text \<open>
  Claim C2 as stated fails: run on 17 March 2021 and again a week later on the same
  two-row table, the generator writes the same six tables under different names.
\<close>

theorem drift_two_runs_counterexample:
  "map snd (written (fst (projr (generate_drift_data exact_ops (\<lambda>n. 737866) strftime_2021
                                    (\<lambda>p. True) (Inr two_patients)))))
     = map snd (written (fst (projr (generate_drift_data exact_ops (\<lambda>n. 737873) strftime_2021
                                       (\<lambda>p. True) (Inr two_patients))))) \<and>
   map fst (written (fst (projr (generate_drift_data exact_ops (\<lambda>n. 737866) strftime_2021
                                    (\<lambda>p. True) (Inr two_patients)))))
     = [''data/diabetes_2021-02-10.csv'', ''data/diabetes_2021-02-17.csv'',
        ''data/diabetes_2021-02-24.csv'', ''data/diabetes_2021-03-03.csv'',
        ''data/diabetes_2021-03-10.csv'', ''data/diabetes_2021-03-17.csv''] \<and>
   map fst (written (fst (projr (generate_drift_data exact_ops (\<lambda>n. 737873) strftime_2021
                                    (\<lambda>p. True) (Inr two_patients)))))
     = [''data/diabetes_2021-02-17.csv'', ''data/diabetes_2021-02-24.csv'',
        ''data/diabetes_2021-03-03.csv'', ''data/diabetes_2021-03-10.csv'',
        ''data/diabetes_2021-03-17.csv'', ''data/diabetes_2021-03-24.csv'']"
proof -
  from generate_example_run [of 737866] obtain st where
    a: "generate_drift_data exact_ops (\<lambda>n. 737866) strftime_2021 (\<lambda>p. True) (Inr two_patients)
          = Inr (st, None)"
    and wa: "written st = expected_writes exact_ops (\<lambda>n. 737866) strftime_2021 0 weeknos two_patients"
    by blast
  from generate_example_run [of 737873] obtain st' where
    b: "generate_drift_data exact_ops (\<lambda>n. 737873) strftime_2021 (\<lambda>p. True) (Inr two_patients)
          = Inr (st', None)"
    and wb: "written st' = expected_writes exact_ops (\<lambda>n. 737873) strftime_2021 0 weeknos two_patients"
    by blast
  show ?thesis
    by (simp add: a b wa wb example_paths expected_writes_contents)
qed

section \<open>Properties of the training scripts\<close>

lemma feature_columns_facts:
  "length feature_columns = 8" "distinct feature_columns"
  "''PatientID'' \<notin> set feature_columns" "''Diabetic'' \<notin> set feature_columns"
  by (simp_all add: feature_columns_def)

lemma features_and_labels_ok:
  assumes "features_and_labels df = Inr (X, y)"
  shows "X = map (\<lambda>r. map r feature_columns) (rows df)" and "y = map (\<lambda>r. r ''Diabetic'') (rows df)"
  using assms
  by (auto simp add: features_and_labels_def and_then_def select_values_def column_values_def
      split: if_splits)

lemma features_and_labels_cong:
  assumes cols: "\<forall>c\<in>set feature_columns \<union> {''Diabetic''}. c \<in> set (columns df') \<longleftrightarrow> c \<in> set (columns df)"
    and len: "length (rows df') = length (rows df)"
    and vals: "\<forall>i<length (rows df). \<forall>c\<in>set feature_columns \<union> {''Diabetic''}. (rows df' ! i) c = (rows df ! i) c"
  shows "features_and_labels df' = features_and_labels df"
proof -
  have sub: "set feature_columns \<subseteq> set (columns df') \<longleftrightarrow> set feature_columns \<subseteq> set (columns df)"
    using cols by blast
  have lab: "''Diabetic'' \<in> set (columns df') \<longleftrightarrow> ''Diabetic'' \<in> set (columns df)"
    using cols by blast
  have X: "map (\<lambda>r. map r feature_columns) (rows df') = map (\<lambda>r. map r feature_columns) (rows df)"
    using len vals by (intro nth_equalityI) auto
  have y: "map (\<lambda>r. r ''Diabetic'') (rows df') = map (\<lambda>r. r ''Diabetic'') (rows df)"
    using len vals by (intro nth_equalityI) auto
  show ?thesis
    by (simp add: features_and_labels_def select_values_def column_values_def sub lab X y)
qed

lemma partition_train_and_log:
  "partition (train_and_log lib g reg parts res0) = Some parts"
  by (simp add: train_and_log_def run_log_def fails_def Let_def
      split: prod.splits sum.splits option.splits)

lemma logged_train_and_log:
  "\<exists>tl. logged (train_and_log lib g reg parts res0) = logged res0 @ (''Regularization Rate'', reg) # tl \<and>
        (tl = [] \<or> (\<exists>acc. tl = [(''Accuracy'', acc)]) \<or>
         (\<exists>acc auc. tl = [(''Accuracy'', acc), (''AUC'', auc)]))"
  by (simp add: train_and_log_def run_log_def fails_def Let_def
      split: prod.splits sum.splits option.splits)

lemma completed_train_and_log:
  assumes "completed (train_and_log lib g reg parts res0)" and "\<not> completed res0"
  shows "\<exists>acc auc. logged (train_and_log lib g reg parts res0) =
            logged res0 @ [(''Regularization Rate'', reg), (''Accuracy'', acc), (''AUC'', auc)] \<and>
          failure (train_and_log lib g reg parts res0) = failure res0"
  using assms
  by (auto simp add: train_and_log_def run_log_def fails_def Let_def
      split: prod.splits sum.splits option.splits)

lemma hits_card:
  "length (filter (\<lambda>h. h) (map2 (\<lambda>a b. a = b) xs ys)) =
     card {i. i < min (length xs) (length ys) \<and> xs ! i = ys ! i}"
proof -
  have "{i. i < length (map2 (\<lambda>a b. a = b) xs ys) \<and> map2 (\<lambda>a b. a = b) xs ys ! i} =
        {i. i < min (length xs) (length ys) \<and> xs ! i = ys ! i}"
    by auto
  then show ?thesis
    by (simp add: length_filter_conv_card)
qed

lemma accuracy_card:
  "accuracy lib y_hat y_test =
     quotient lib (card {i. i < min (length y_hat) (length y_test) \<and> y_hat ! i = y_test ! i})
       (min (length y_hat) (length y_test))"
  unfolding accuracy_def Let_def hits_card by simp

lemma accuracy_train_and_log:
  assumes "(''Accuracy'', acc) \<in> set (logged (train_and_log lib g reg (X_train, X_test, y_train, y_test) res0))"
    and "(''Accuracy'', acc) \<notin> set (logged res0)"
  shows "\<exists>c model y_hat. one_over lib reg = Inr c \<and> fit lib g c X_train y_train = Inr model \<and>
           predict lib model X_test = Inr y_hat \<and> acc = accuracy lib y_hat y_test"
  using assms
  by (auto simp add: train_and_log_def run_log_def fails_def Let_def and_then_def
      split: prod.splits sum.splits option.splits)


lemma partition_scripts:
  "partition (diabetes_training lib g csv) =
     (case load_and_split lib g csv of Inl e \<Rightarrow> None | Inr parts \<Rightarrow> Some parts)"
  "parse_args lib argv = Inr given \<Longrightarrow>
   partition (diabetes_training_params lib g csv argv) =
     (case load_and_split lib g csv of Inl e \<Rightarrow> None | Inr parts \<Rightarrow> Some parts)"
  by (simp_all add: diabetes_training_def diabetes_training_params_def partition_train_and_log
      fails_def script_start_def Let_def split: sum.splits)

lemma load_and_split_seeded:
  assumes "\<forall>n t s g g'. split_indices lib n t (Some s) g = split_indices lib n t (Some s) g'"
  shows "load_and_split lib g csv = load_and_split lib g' csv"
proof -
  have "train_test_split lib g X y t (Some s) = train_test_split lib g' X y t (Some s)" for X y t s
    using assms [rule_format, of "length X" t s g g'] by (simp add: train_test_split_def)
  then show ?thesis
    by (simp add: load_and_split_def and_then_def split: sum.splits prod.splits)
qed

text \<open>
  Claim C10. Both scripts pass \<open>test_size=0.30\<close> and \<open>random_state=0\<close> to
  \<open>train_test_split\<close>. With a library whose seeded split does not read the process-wide
  random generator, the values of \<open>X_train, X_test, y_train, y_test\<close> are the same in
  two executions of the plain script on the same CSV, whatever the state of that
  generator, and the same in the parameterized script, whatever its \<open>--reg_rate\<close>:
  they are the split of the features and labels of the CSV with these two arguments.
\<close>

theorem split_is_seeded_and_shared:
  assumes seeded: "\<forall>n t s g g'. split_indices lib n t (Some s) g = split_indices lib n t (Some s) g'"
  shows "partition (diabetes_training lib g csv) = partition (diabetes_training lib g' csv) \<and>
         (\<forall>given. parse_args lib argv = Inr given \<longrightarrow>
            partition (diabetes_training_params lib g' csv argv)
              = partition (diabetes_training lib g csv)) \<and>
         (\<forall>df X y. csv = Inr df \<and> features_and_labels df = Inr (X, y) \<longrightarrow>
            partition (diabetes_training lib g csv) =
              (case train_test_split lib g X y 0.30 (Some 0) of
                 Inl e \<Rightarrow> None | Inr parts \<Rightarrow> Some parts))"
proof -
  note eq = load_and_split_seeded [OF seeded, of g csv g']
  have a: "partition (diabetes_training lib g csv) = partition (diabetes_training lib g' csv)"
    by (simp add: partition_scripts eq)
  have b: "partition (diabetes_training_params lib g' csv argv)
              = partition (diabetes_training lib g csv)" if "parse_args lib argv = Inr given" for given
    using that by (simp add: partition_scripts eq)
  have c: "partition (diabetes_training lib g csv) =
              (case train_test_split lib g X y 0.30 (Some 0) of
                 Inl e \<Rightarrow> None | Inr parts \<Rightarrow> Some parts)"
    if "csv = Inr df \<and> features_and_labels df = Inr (X, y)" for df X y
    using that by (simp add: partition_scripts load_and_split_def and_then_def)
  from a b c show ?thesis by blast
qed

lemma example_features:
  "features_and_labels example_table =
     Inr ([[0, 171, 0, 0, 0, 0, 0, 0], [0, 92, 0, 0, 0, 0, 0, 0],
           [0, 115, 0, 0, 0, 0, 0, 0], [0, 103, 0, 0, 0, 0, 0, 0]], [1, 0, 1, 0])"
  by (simp add: features_and_labels_def select_values_def column_values_def and_then_def
      example_table_def feature_columns_def patient_row_def)

lemma example_split:
  "load_and_split example_libs g (Inr example_table) =
     Inr ([[0, 115, 0, 0, 0, 0, 0, 0], [0, 103, 0, 0, 0, 0, 0, 0]],
          [[0, 171, 0, 0, 0, 0, 0, 0], [0, 92, 0, 0, 0, 0, 0, 0]], [1, 0], [1, 0])"
  by (simp add: load_and_split_def and_then_def example_features train_test_split_def
      example_libs_def upt_conv_Cons del: upt_Suc)

theorem split_is_seeded_and_shared_witness:
  "(\<forall>n t s g g'. split_indices example_libs n t (Some s) g
                    = split_indices example_libs n t (Some s) g') \<and>
   parse_args example_libs [''--reg_rate'', ''0.1''] = Inr (Some (1 / 10)) \<and>
   partition (diabetes_training example_libs 7 (Inr example_table)) =
     Some ([[0, 115, 0, 0, 0, 0, 0, 0], [0, 103, 0, 0, 0, 0, 0, 0]],
           [[0, 171, 0, 0, 0, 0, 0, 0], [0, 92, 0, 0, 0, 0, 0, 0]], [1, 0], [1, 0]) \<and>
   partition (diabetes_training_params example_libs 3 (Inr example_table) [''--reg_rate'', ''0.1'']) =
     Some ([[0, 115, 0, 0, 0, 0, 0, 0], [0, 103, 0, 0, 0, 0, 0, 0]],
           [[0, 171, 0, 0, 0, 0, 0, 0], [0, 92, 0, 0, 0, 0, 0, 0]], [1, 0], [1, 0])"
proof -
  have seeded: "\<forall>n t s g g'. split_indices example_libs n t (Some s) g
                    = split_indices example_libs n t (Some s) g'"
    by (simp add: example_libs_def)
  have args: "parse_args example_libs [''--reg_rate'', ''0.1''] = Inr (Some (1 / 10))"
    by (simp add: example_libs_def)
  have p7: "partition (diabetes_training example_libs 7 (Inr example_table)) =
     Some ([[0, 115, 0, 0, 0, 0, 0, 0], [0, 103, 0, 0, 0, 0, 0, 0]],
           [[0, 171, 0, 0, 0, 0, 0, 0], [0, 92, 0, 0, 0, 0, 0, 0]], [1, 0], [1, 0])"
    by (simp add: partition_scripts example_split)
  from split_is_seeded_and_shared [OF seeded, where g = 7 and g' = 3
      and csv = "Inr example_table" and argv = "[''--reg_rate'', ''0.1'']"] args p7
  have "partition (diabetes_training_params example_libs 3 (Inr example_table) [''--reg_rate'', ''0.1'']) =
     Some ([[0, 115, 0, 0, 0, 0, 0, 0], [0, 103, 0, 0, 0, 0, 0, 0]],
           [[0, 171, 0, 0, 0, 0, 0, 0], [0, 92, 0, 0, 0, 0, 0, 0]], [1, 0], [1, 0])"
    by simp
  with seeded args p7 show ?thesis by blast
qed


lemma scripts_cong:
  assumes "features_and_labels df' = features_and_labels df"
  shows "diabetes_training lib g (Inr df') = diabetes_training lib g (Inr df)"
    and "diabetes_training_params lib g (Inr df') argv = diabetes_training_params lib g (Inr df) argv"
proof -
  have ls: "load_and_split lib g (Inr df') = load_and_split lib g (Inr df)"
    using assms by (simp add: load_and_split_def and_then_def)
  show "diabetes_training lib g (Inr df') = diabetes_training lib g (Inr df)"
    by (simp add: diabetes_training_def ls)
  show "diabetes_training_params lib g (Inr df') argv = diabetes_training_params lib g (Inr df) argv"
    by (simp add: diabetes_training_params_def ls Let_def split: sum.splits)
qed

text \<open>
  Claim C5. The feature list has eight distinct names, without \<open>PatientID\<close> and
  without \<open>Diabetic\<close>. Where the selection succeeds, \<open>X\<close> has one row per row of the
  table, holding the values of Pregnancies, PlasmaGlucose, DiastolicBloodPressure,
  TricepsThickness, SerumInsulin, BMI, DiabetesPedigree and Age in this order, and \<open>y\<close>
  is the \<open>Diabetic\<close> column. Neither script depends on anything else in the table: two
  tables that agree on these nine columns, whatever their \<open>PatientID\<close>, give the same
  run of the plain and of the parameterized script.
\<close>

theorem features_are_the_eight_columns:
  "length feature_columns = 8 \<and> distinct feature_columns \<and>
   ''PatientID'' \<notin> set feature_columns \<and> ''Diabetic'' \<notin> set feature_columns \<and>
   (\<forall>X y. features_and_labels df = Inr (X, y) \<longrightarrow>
      length X = length (rows df) \<and> length y = length (rows df) \<and>
      (\<forall>i<length (rows df).
         X ! i = [(rows df ! i) ''Pregnancies'', (rows df ! i) ''PlasmaGlucose'',
                  (rows df ! i) ''DiastolicBloodPressure'', (rows df ! i) ''TricepsThickness'',
                  (rows df ! i) ''SerumInsulin'', (rows df ! i) ''BMI'',
                  (rows df ! i) ''DiabetesPedigree'', (rows df ! i) ''Age''] \<and>
         y ! i = (rows df ! i) ''Diabetic'')) \<and>
   ((\<forall>c\<in>set feature_columns \<union> {''Diabetic''}. c \<in> set (columns df') \<longleftrightarrow> c \<in> set (columns df)) \<and>
    length (rows df') = length (rows df) \<and>
    (\<forall>i<length (rows df). \<forall>c\<in>set feature_columns \<union> {''Diabetic''}.
       (rows df' ! i) c = (rows df ! i) c) \<longrightarrow>
      diabetes_training lib g (Inr df') = diabetes_training lib g (Inr df) \<and>
      diabetes_training_params lib g (Inr df') argv
        = diabetes_training_params lib g (Inr df) argv)"
proof -
  have sel: "length X = length (rows df) \<and> length y = length (rows df) \<and>
      (\<forall>i<length (rows df).
         X ! i = [(rows df ! i) ''Pregnancies'', (rows df ! i) ''PlasmaGlucose'',
                  (rows df ! i) ''DiastolicBloodPressure'', (rows df ! i) ''TricepsThickness'',
                  (rows df ! i) ''SerumInsulin'', (rows df ! i) ''BMI'',
                  (rows df ! i) ''DiabetesPedigree'', (rows df ! i) ''Age''] \<and>
         y ! i = (rows df ! i) ''Diabetic'')"
    if "features_and_labels df = Inr (X, y)" for X y
    using features_and_labels_ok [OF that] by (simp add: feature_columns_def)
  have same: "diabetes_training lib g (Inr df') = diabetes_training lib g (Inr df) \<and>
      diabetes_training_params lib g (Inr df') argv
        = diabetes_training_params lib g (Inr df) argv"
    if "(\<forall>c\<in>set feature_columns \<union> {''Diabetic''}. c \<in> set (columns df') \<longleftrightarrow> c \<in> set (columns df)) \<and>
    length (rows df') = length (rows df) \<and>
    (\<forall>i<length (rows df). \<forall>c\<in>set feature_columns \<union> {''Diabetic''}.
       (rows df' ! i) c = (rows df ! i) c)"
  proof -
    from that have fl: "features_and_labels df' = features_and_labels df"
      by (intro features_and_labels_cong) blast+
    show ?thesis
      by (rule conjI [OF scripts_cong(1) [OF fl] scripts_cong(2) [OF fl]])
  qed
  from sel have sel': "\<forall>X y. features_and_labels df = Inr (X, y) \<longrightarrow>
      length X = length (rows df) \<and> length y = length (rows df) \<and>
      (\<forall>i<length (rows df).
         X ! i = [(rows df ! i) ''Pregnancies'', (rows df ! i) ''PlasmaGlucose'',
                  (rows df ! i) ''DiastolicBloodPressure'', (rows df ! i) ''TricepsThickness'',
                  (rows df ! i) ''SerumInsulin'', (rows df ! i) ''BMI'',
                  (rows df ! i) ''DiabetesPedigree'', (rows df ! i) ''Age''] \<and>
         y ! i = (rows df ! i) ''Diabetic'')"
    by (intro allI impI)
  have same': "(\<forall>c\<in>set feature_columns \<union> {''Diabetic''}. c \<in> set (columns df') \<longleftrightarrow> c \<in> set (columns df)) \<and>
    length (rows df') = length (rows df) \<and>
    (\<forall>i<length (rows df). \<forall>c\<in>set feature_columns \<union> {''Diabetic''}.
       (rows df' ! i) c = (rows df ! i) c) \<longrightarrow>
      diabetes_training lib g (Inr df') = diabetes_training lib g (Inr df) \<and>
      diabetes_training_params lib g (Inr df') argv
        = diabetes_training_params lib g (Inr df) argv"
    by (rule impI) (rule same)
  note f = feature_columns_facts
  show ?thesis
    by (rule conjI [OF f(1) conjI [OF f(2) conjI [OF f(3) conjI [OF f(4) conjI [OF sel' same']]]]])
qed

theorem features_are_the_eight_columns_witness:
  "features_and_labels example_table =
     Inr ([[0, 171, 0, 0, 0, 0, 0, 0], [0, 92, 0, 0, 0, 0, 0, 0],
           [0, 115, 0, 0, 0, 0, 0, 0], [0, 103, 0, 0, 0, 0, 0, 0]], [1, 0, 1, 0]) \<and>
   (rows example_table ! 2) ''PatientID'' = 3 \<and>
   (rows renumbered_table ! 2) ''PatientID'' = 13 \<and>
   [0, 115, 0, 0, 0, 0, 0, 0] =
     [(rows example_table ! 2) ''Pregnancies'', (rows example_table ! 2) ''PlasmaGlucose'',
      (rows example_table ! 2) ''DiastolicBloodPressure'',
      (rows example_table ! 2) ''TricepsThickness'', (rows example_table ! 2) ''SerumInsulin'',
      (rows example_table ! 2) ''BMI'', (rows example_table ! 2) ''DiabetesPedigree'',
      (rows example_table ! 2) ''Age''] \<and>
   diabetes_training example_libs 0 (Inr renumbered_table)
     = diabetes_training example_libs 0 (Inr example_table)"
proof -
  note t = features_are_the_eight_columns [where df = example_table and df' = renumbered_table
      and lib = example_libs and g = 0 and argv = "[]"]
  have cols: "columns renumbered_table = columns example_table"
    by (simp add: example_table_def renumbered_table_def)
  have lens: "length (rows renumbered_table) = 4" "length (rows example_table) = 4"
    by (simp_all add: example_table_def renumbered_table_def)
  have m: "map (\<lambda>r. r c) (rows renumbered_table) = map (\<lambda>r. r c) (rows example_table)"
    if "c \<noteq> ''PatientID''" for c
    using that by (simp add: example_table_def renumbered_table_def patient_row_def)
  have vals: "(rows renumbered_table ! i) c = (rows example_table ! i) c"
    if i: "i < length (rows example_table)" and c: "c \<in> set feature_columns \<union> {''Diabetic''}" for i c
  proof -
    from c have "c \<noteq> ''PatientID''"
      by (auto simp add: feature_columns_def)
    from m [OF this] have "map (\<lambda>r. r c) (rows renumbered_table) ! i = map (\<lambda>r. r c) (rows example_table) ! i"
      by (rule arg_cong)
    with i show ?thesis
      by (simp only: nth_map lens)
  qed
  have pre: "(\<forall>c\<in>set feature_columns \<union> {''Diabetic''}.
                c \<in> set (columns renumbered_table) \<longleftrightarrow> c \<in> set (columns example_table)) \<and>
    length (rows renumbered_table) = length (rows example_table) \<and>
    (\<forall>i<length (rows example_table). \<forall>c\<in>set feature_columns \<union> {''Diabetic''}.
       (rows renumbered_table ! i) c = (rows example_table ! i) c)"
    using vals by (simp add: cols lens)
  note last = t [THEN conjunct2, THEN conjunct2, THEN conjunct2, THEN conjunct2, THEN conjunct2]
  from mp [OF last pre] have same: "diabetes_training example_libs 0 (Inr renumbered_table)
     = diabetes_training example_libs 0 (Inr example_table)"
    by (rule conjunct1)
  have row: "[0, 115, 0, 0, 0, 0, 0, 0] =
     [(rows example_table ! 2) ''Pregnancies'', (rows example_table ! 2) ''PlasmaGlucose'',
      (rows example_table ! 2) ''DiastolicBloodPressure'',
      (rows example_table ! 2) ''TricepsThickness'', (rows example_table ! 2) ''SerumInsulin'',
      (rows example_table ! 2) ''BMI'', (rows example_table ! 2) ''DiabetesPedigree'',
      (rows example_table ! 2) ''Age'']"
    by (simp add: example_table_def patient_row_def)
  have ids: "(rows example_table ! 2) ''PatientID'' = 3" "(rows renumbered_table ! 2) ''PatientID'' = 13"
    by (simp_all add: example_table_def renumbered_table_def patient_row_def)
  from example_features ids row same show ?thesis by simp
qed


lemma three_metrics_train_and_log:
  "three_metrics lib g (train_and_log lib g reg parts script_start)"
proof -
  obtain X_train X_test y_train y_test where parts: "parts = (X_train, X_test, y_train, y_test)"
    by (cases parts) auto
  let ?res = "train_and_log lib g reg parts script_start"
  have s0: "logged script_start = []" "\<not> completed script_start" "failure script_start = None"
    by (simp_all add: script_start_def)
  from logged_train_and_log [of lib g reg parts script_start]
  have names: "map fst (logged ?res) = [''Regularization Rate''] \<or>
      map fst (logged ?res) = [''Regularization Rate'', ''Accuracy''] \<or>
      map fst (logged ?res) = [''Regularization Rate'', ''Accuracy'', ''AUC'']"
    by (auto simp add: s0)
  have fin: "map fst (logged ?res) = [''Regularization Rate'', ''Accuracy'', ''AUC''] \<and>
        failure ?res = None" if "completed ?res"
    using completed_train_and_log [OF that s0(2)] by (auto simp add: s0)
  have accs: "\<exists>X_train X_test y_train y_test reg c model y_hat.
           partition ?res = Some (X_train, X_test, y_train, y_test) \<and>
           one_over lib reg = Inr c \<and> fit lib g c X_train y_train = Inr model \<and>
           predict lib model X_test = Inr y_hat \<and>
           acc = accuracy lib y_hat y_test \<and>
           (length y_hat = length y_test \<longrightarrow>
              acc = quotient lib (card {i. i < length y_test \<and> y_hat ! i = y_test ! i})
                      (length y_test))"
    if "(''Accuracy'', acc) \<in> set (logged ?res)" for acc
  proof -
    from that have "(''Accuracy'', acc) \<in> set (logged (train_and_log lib g reg (X_train, X_test, y_train, y_test) script_start))"
      by (simp add: parts)
    from accuracy_train_and_log [OF this] obtain c model y_hat where
      h: "one_over lib reg = Inr c" "fit lib g c X_train y_train = Inr model"
         "predict lib model X_test = Inr y_hat" "acc = accuracy lib y_hat y_test"
      by (auto simp add: s0)
    have "length y_hat = length y_test \<longrightarrow>
              acc = quotient lib (card {i. i < length y_test \<and> y_hat ! i = y_test ! i})
                      (length y_test)"
      by (simp add: h(4) accuracy_card)
    with h partition_train_and_log [of lib g reg parts script_start] show ?thesis
      unfolding parts by blast
  qed
  from names fin accs show ?thesis
    by blast
qed

lemma three_metrics_failed: "three_metrics lib g (fails e script_start)"
  by (simp add: fails_def script_start_def)

text \<open>
  Claim C7. In every execution of the plain and of the parameterized training
  script the metrics logged are, in this order, \<open>Regularization Rate\<close>, \<open>Accuracy\<close> and
  \<open>AUC\<close>, or an initial part of them when the script raised on the way; an execution
  that completes has logged exactly the three. Each value is a float. The accuracy
  logged is the share of test rows on which the prediction of the model, fitted on
  the training part, equals the label: the number of such rows divided by the number
  of test rows. The plain script logs 0.01 as regularization rate.
\<close>

theorem training_scripts_log_three_metrics:
  "three_metrics lib g (diabetes_training lib g read_csv) \<and>
   three_metrics lib g (diabetes_training_params lib g read_csv argv) \<and>
   (\<forall>v. (''Regularization Rate'', v) \<in> set (logged (diabetes_training lib g read_csv)) \<longrightarrow>
      v = float_literal lib 0.01)"
proof -
  have a: "three_metrics lib g (diabetes_training lib g read_csv)"
  proof (cases "load_and_split lib g read_csv")
    case (Inl e)
    then have eq: "diabetes_training lib g read_csv = fails e script_start"
      by (simp add: diabetes_training_def)
    show ?thesis unfolding eq by (rule three_metrics_failed)
  next
    case (Inr parts)
    then have eq: "diabetes_training lib g read_csv
        = train_and_log lib g (float_literal lib 0.01) parts script_start"
      by (simp add: diabetes_training_def)
    show ?thesis unfolding eq by (rule three_metrics_train_and_log)
  qed
  have b: "three_metrics lib g (diabetes_training_params lib g read_csv argv)"
  proof (cases "parse_args lib argv")
    case (Inl e)
    then have eq: "diabetes_training_params lib g read_csv argv = fails e script_start"
      by (simp add: diabetes_training_params_def)
    show ?thesis unfolding eq by (rule three_metrics_failed)
  next
    case given: (Inr given)
    show ?thesis
    proof (cases "load_and_split lib g read_csv")
      case (Inl e)
      with given have eq: "diabetes_training_params lib g read_csv argv = fails e script_start"
        by (simp add: diabetes_training_params_def)
      show ?thesis unfolding eq by (rule three_metrics_failed)
    next
      case (Inr parts)
      with given have eq: "diabetes_training_params lib g read_csv argv
          = train_and_log lib g (case given of None \<Rightarrow> float_literal lib 0.01 | Some r \<Rightarrow> r)
              parts script_start"
        by (simp add: diabetes_training_params_def)
      show ?thesis unfolding eq by (rule three_metrics_train_and_log)
    qed
  qed
  have c: "v = float_literal lib 0.01"
    if "(''Regularization Rate'', v) \<in> set (logged (diabetes_training lib g read_csv))" for v
  proof (cases "load_and_split lib g read_csv")
    case (Inl e)
    with that show ?thesis
      by (simp add: diabetes_training_def fails_def script_start_def)
  next
    case (Inr parts)
    from logged_train_and_log [of lib g "float_literal lib 0.01" parts script_start] that Inr
    show ?thesis
      by (auto simp add: diabetes_training_def script_start_def)
  qed
  from a b c show ?thesis by blast
qed


lemma example_run:
  "diabetes_training example_libs g (Inr example_table) =
     \<lparr>logged = [(''Regularization Rate'', 1 / 100), (''Accuracy'', 1 / 2), (''AUC'', 1 / 2)],
      partition = Some ([[0, 115, 0, 0, 0, 0, 0, 0], [0, 103, 0, 0, 0, 0, 0, 0]],
                        [[0, 171, 0, 0, 0, 0, 0, 0], [0, 92, 0, 0, 0, 0, 0, 0]], [1, 0], [1, 0]),
      model_file = Some (''outputs/diabetes_model.pkl'', 1), completed = True, failure = None\<rparr>"
  unfolding diabetes_training_def example_split
  by (simp add: train_and_log_def run_log_def and_then_def accuracy_def second_column_def
      script_start_def example_libs_def Let_def)

theorem training_scripts_log_three_metrics_witness:
  "completed (diabetes_training example_libs 0 (Inr example_table)) \<and>
   logged (diabetes_training example_libs 0 (Inr example_table)) =
     [(''Regularization Rate'', 1 / 100), (''Accuracy'', 1 / 2), (''AUC'', 1 / 2)] \<and>
   (''Accuracy'', 1 / 2) \<in> set (logged (diabetes_training example_libs 0 (Inr example_table))) \<and>
   quotient example_libs (card {i. i < length [1, 0 :: int] \<and> [1, 1] ! i = [1, 0 :: int] ! i})
     (length [1, 0 :: int]) = 1 / 2 \<and>
   map fst (logged (diabetes_training example_libs 0 (Inr example_table))) =
     [''Regularization Rate'', ''Accuracy'', ''AUC'']"
proof -
  note t = training_scripts_log_three_metrics [where lib = example_libs and g = 0
      and read_csv = "Inr example_table" and argv = "[]"]
  have c: "completed (diabetes_training example_libs 0 (Inr example_table))"
    by (simp add: example_run)
  have l: "logged (diabetes_training example_libs 0 (Inr example_table)) =
     [(''Regularization Rate'', 1 / 100), (''Accuracy'', 1 / 2), (''AUC'', 1 / 2)]"
    by (simp add: example_run)
  from t c have n: "map fst (logged (diabetes_training example_libs 0 (Inr example_table))) =
     [''Regularization Rate'', ''Accuracy'', ''AUC'']"
    by blast
  have "{i. i < length [1, 0 :: int] \<and> [1, 1] ! i = [1, 0 :: int] ! i} = {0}"
    by (auto simp add: less_Suc_eq numeral_2_eq_2)
  then have q: "quotient example_libs (card {i. i < length [1, 0 :: int] \<and> [1, 1] ! i = [1, 0 :: int] ! i})
     (length [1, 0 :: int]) = 1 / 2"
    by (simp add: example_libs_def)
  from c l n q show ?thesis by simp
qed


section \<open>Properties of the order of calls on runs\<close>

subsection \<open>The check is sound\<close>

lemma perform_halted: "halted st \<noteq> None \<Longrightarrow> perform pf c r st = st"
  by (simp add: perform_def)

lemma on_run_halted: "halted st \<noteq> None \<Longrightarrow> on_run v f st = st"
  by (simp add: on_run_def)

lemma assign_halted: "halted st \<noteq> None \<Longrightarrow> assign v r st = st"
  by (simp add: assign_def)

lemma exec_halted: "halted st \<noteq> None \<Longrightarrow> exec pf s st = st"
  by (cases s) (simp_all add: on_run_halted new_run_def perform_aside_def)

lemma exec_all_halted: "halted st \<noteq> None \<Longrightarrow> exec_all pf ss st = st"
  by (induction ss) (simp_all add: exec_halted)

lemma waited_for_mono: "waited_for t r \<Longrightarrow> set t \<subseteq> set t' \<Longrightarrow> waited_for t' r"
  by (auto simp add: waited_for_def)

lemma waited_for_child: "waited_for t r \<Longrightarrow> waited_for t (Child r k)"
  by (auto simp add: waited_for_def)

lemma created_mono: "created t r \<Longrightarrow> set t \<subseteq> set t' \<Longrightarrow> created t' r"
  by (auto simp add: created_def)

lemma created_child: "created t r \<Longrightarrow> created t (Child r k)"
  by (simp add: created_def)

lemma perform_fields:
  "vars (perform pf c r st) = vars st"
  "submissions (perform pf c r st) = submissions st"
  "set (trace st) \<subseteq> set (trace (perform pf c r st))"
  "halted st \<noteq> None \<Longrightarrow> halted (perform pf c r st) \<noteq> None"
  by (auto simp add: perform_def split: option.splits)

lemma perform_wait:
  "halted st = None \<Longrightarrow> halted (perform pf WaitOp r st) = None \<Longrightarrow>
   waited_for (trace (perform pf WaitOp r st)) r"
  by (cases r) (auto simp add: perform_def waited_for_def split: option.splits)

lemma perform_creates:
  "halted st = None \<Longrightarrow> halted (perform pf c (Submitted n) st) = None \<Longrightarrow> creates c \<Longrightarrow>
   created (trace (perform pf c (Submitted n) st)) (Submitted n)"
  by (cases c) (auto simp add: perform_def created_def split: option.splits)

lemma orderly_call:
  assumes "orderly t" and "allowed_after t (Call c r)"
  shows "orderly (t @ [Call c r])" and "orderly (t @ [Call c r, Return c r])"
proof -
  from assms show a: "orderly (t @ [Call c r])"
    by (rule orderly_snoc)
  have "orderly ((t @ [Call c r]) @ [Return c r])"
    by (rule orderly_snoc [OF a]) simp
  then show "orderly (t @ [Call c r, Return c r])" by simp
qed

lemma perform_orderly:
  assumes "orderly (trace st)" and "halted st = None \<longrightarrow> allowed_after (trace st) (Call c r)"
  shows "orderly (trace (perform pf c r st))"
  using assms orderly_call [of "trace st" c r]
  by (auto simp add: perform_def split: option.splits)

lemma allowed_plain:
  "\<not> needs_wait c \<Longrightarrow> creates c \<or> created t r \<Longrightarrow> allowed_after t (Call c r)"
  by simp

lemma perform_aside_orderly:
  assumes "orderly (trace st)"
  shows "orderly (trace (perform_aside pf name st))"
  using assms orderly_snoc [of "trace st" "Aside name"]
  by (auto simp add: perform_aside_def split: option.splits)


lemma foldl_invariant:
  assumes "P s" and "\<And>s k. k \<in> set ks \<Longrightarrow> P s \<Longrightarrow> P (f s k)"
  shows "P (foldl f s ks)"
  using assms by (induction ks arbitrary: s) simp_all

lemma on_run_rule:
  assumes "halted st \<noteq> None \<Longrightarrow> P st"
    and "halted st = None \<Longrightarrow> vars st v = None \<Longrightarrow> P (st\<lparr>halted := Some AttributeError\<rparr>)"
    and "\<And>r. halted st = None \<Longrightarrow> vars st v = Some r \<Longrightarrow> P (f r st)"
  shows "P (on_run v f st)"
  using assms by (auto simp add: on_run_def split: option.splits)

lemma assign_fields:
  "trace (assign v r st) = trace st"
  "halted (assign v r st) = halted st"
  "submissions (assign v r st) = submissions st"
  "halted st = None \<Longrightarrow> vars (assign v r st) = (vars st)(v := r)"
  by (simp_all add: assign_def)

lemma new_run_mono: "set (trace st) \<subseteq> set (trace (new_run pf c v st))"
  using perform_fields(3) [of "st\<lparr>submissions := Suc (submissions st)\<rparr>" pf c "Submitted (submissions st)"]
  by (simp add: new_run_def Let_def assign_fields)

lemma perform_aside_mono: "set (trace st) \<subseteq> set (trace (perform_aside pf name st))"
  by (auto simp add: perform_aside_def split: option.splits)

lemma trace_mono:
  "set (trace st) \<subseteq> set (trace (exec pf s st))"
  "set (trace st) \<subseteq> set (trace (exec_all pf ss st))"
proof (induction pf s st and pf ss st rule: exec_exec_all.induct)
  case (7 pf v p inner st)
  show ?case
    unfolding exec.simps
  proof (rule on_run_rule)
    fix r
    have "set (trace st) \<subseteq> set (trace (perform pf GetChildrenOp r st))"
      by (rule perform_fields)
    then show "set (trace st) \<subseteq> set (trace (foldl (\<lambda>s' k. exec_all pf inner (assign v (Some (Child r k)) s'))
                        (perform pf GetChildrenOp r st) [0..<children pf r]))"
    proof (rule foldl_invariant)
      fix s :: wf_state and k
      assume k: "k \<in> set [0..<children pf r]" and s: "set (trace st) \<subseteq> set (trace s)"
      from "7.IH" [OF k, where a = s] s
      show "set (trace st) \<subseteq> set (trace (exec_all pf inner (assign v (Some (Child r k)) s)))"
        by (simp add: assign_fields)
    qed
  qed simp_all
next
  case (8 pf v st)
  show ?case
    unfolding exec.simps
  proof (rule on_run_rule)
    fix r
    have "set (trace st) \<subseteq> set (trace (perform pf GetMetricsOp r st))"
      by (rule perform_fields)
    then show "set (trace st) \<subseteq> set (trace (foldl (\<lambda>s' m. perform pf GetMetricsOp r s')
                        (perform pf GetMetricsOp r st) (metric_names pf r)))"
    proof (rule foldl_invariant)
      fix s :: wf_state and k :: string assume "set (trace st) \<subseteq> set (trace s)"
      with perform_fields(3) [of s pf GetMetricsOp r]
      show "set (trace st) \<subseteq> set (trace (perform pf GetMetricsOp r s))" by blast
    qed
  qed simp_all
next
  case (12 pf s ss st)
  then show ?case by auto
next
  case (3 pf v st)
  show ?case unfolding exec.simps by (rule on_run_rule) (simp_all add: perform_fields)
next
  case (4 pf v st)
  show ?case unfolding exec.simps by (rule on_run_rule) (simp_all add: perform_fields)
next
  case (5 pf v st)
  show ?case unfolding exec.simps by (rule on_run_rule) (simp_all add: perform_fields)
next
  case (6 pf v p st)
  show ?case unfolding exec.simps
    by (rule on_run_rule) (simp_all add: perform_fields assign_fields)
next
  case (9 pf name v st)
  show ?case unfolding exec.simps by (rule on_run_rule) (simp_all add: perform_fields)
qed (simp_all add: new_run_mono perform_aside_mono)


lemma safe_weaken: "safe st w' \<Longrightarrow> set w \<subseteq> set w' \<Longrightarrow> safe st w"
  by (auto simp add: safe_def)

lemma safe_halted: "orderly (trace st) \<Longrightarrow> halted st \<noteq> None \<Longrightarrow> safe st w"
  by (auto simp add: safe_def)

lemma safe_orderly: "safe st w \<Longrightarrow> orderly (trace st)"
  by (simp add: safe_def)

lemma safe_waited:
  "safe st w \<Longrightarrow> halted st = None \<Longrightarrow> v \<in> set w \<Longrightarrow> vars st v = Some r \<Longrightarrow> waited_for (trace st) r"
  by (simp add: safe_def)

lemma safe_created:
  "safe st w \<Longrightarrow> halted st = None \<Longrightarrow> vars st v = Some r \<Longrightarrow> created (trace st) r"
  by (auto simp add: safe_def)

lemma safe_stop: "safe st w \<Longrightarrow> safe (st\<lparr>halted := Some e\<rparr>) w'"
  by (simp add: safe_def)

lemma safe_perform:
  assumes "safe st w" and "halted st = None \<longrightarrow> allowed_after (trace st) (Call c r)"
  shows "safe (perform pf c r st) w"
proof -
  have o: "orderly (trace (perform pf c r st))"
    using assms by (intro perform_orderly) (simp_all add: safe_def)
  have keep: "halted st = None" if "halted (perform pf c r st) = None"
    using that perform_fields(4) [of st pf c r] by blast
  show ?thesis
    unfolding safe_def
  proof (intro conjI impI ballI allI)
    show "orderly (trace (perform pf c r st))" by (rule o)
  next
    fix v r'
    assume h: "halted (perform pf c r st) = None"
      and b: "vars (perform pf c r st) v = Some r'"
    from b have "vars st v = Some r'" by (simp add: perform_fields)
    from safe_created [OF assms(1) keep [OF h] this]
    show "created (trace (perform pf c r st)) r'"
      by (rule created_mono) (rule perform_fields)
  next
    fix v r'
    assume h: "halted (perform pf c r st) = None" and v: "v \<in> set w"
      and b: "vars (perform pf c r st) v = Some r'"
    from b have "vars st v = Some r'" by (simp add: perform_fields)
    from safe_waited [OF assms(1) keep [OF h] v this]
    show "waited_for (trace (perform pf c r st)) r'"
      by (rule waited_for_mono) (rule perform_fields)
  qed
qed

lemma safe_assign:
  assumes "safe st w"
    and "halted st = None \<Longrightarrow>
           (case r of None \<Rightarrow> True | Some x \<Rightarrow> waited_for (trace st) x \<and> created (trace st) x)"
  shows "safe (assign v r st) (v # w)"
  using assms by (auto simp add: safe_def assign_def split: option.splits)

lemma safe_assign_unknown:
  assumes "safe st w"
    and "halted st = None \<Longrightarrow> (case r of None \<Rightarrow> True | Some x \<Rightarrow> created (trace st) x)"
  shows "safe (assign v r st) (removeAll v w)"
  using assms by (auto simp add: safe_def assign_def split: option.splits)

lemma safe_new_run:
  assumes "safe st w" and "creates c"
  shows "safe (new_run pf c v st) (removeAll v w)"
proof (cases "halted st = None")
  case False
  then have "new_run pf c v st = st" by (simp add: new_run_def)
  with assms(1) show ?thesis by (auto intro: safe_weaken)
next
  case True
  let ?st = "st\<lparr>submissions := Suc (submissions st)\<rparr>"
  let ?r = "Submitted (submissions st)"
  have nw: "\<not> needs_wait c" using assms(2) by (cases c) simp_all
  have s0: "safe ?st w" using assms(1) by (simp add: safe_def)
  have h0: "halted ?st = None" using True by simp
  have sp: "safe (perform pf c ?r ?st) w"
    using s0 by (rule safe_perform) (simp add: assms(2) nw)
  have "safe (assign v (Some ?r) (perform pf c ?r ?st)) (removeAll v w)"
    using sp
  proof (rule safe_assign_unknown)
    assume "halted (perform pf c ?r ?st) = None"
    from perform_creates [OF h0 this assms(2)]
    show "case Some ?r of None \<Rightarrow> True | Some x \<Rightarrow> created (trace (perform pf c ?r ?st)) x"
      by simp
  qed
  with True show ?thesis by (simp add: new_run_def Let_def)
qed

lemma safe_call_plain:
  assumes "safe st w" and "\<not> needs_wait c"
  shows "safe (on_run v (perform pf c) st) w"
proof (rule on_run_rule)
  fix r assume h: "halted st = None" and b: "vars st v = Some r"
  from safe_created [OF assms(1) h b] have "created (trace st) r" .
  with assms(2) have "allowed_after (trace st) (Call c r)" by simp
  with assms(1) show "safe (perform pf c r st) w"
    by (intro safe_perform) simp_all
qed (use assms(1) in \<open>simp_all add: safe_stop\<close>)

lemma safe_call_waited:
  assumes "safe st w" and "v \<in> set w"
  shows "safe (on_run v (perform pf c) st) w"
proof (rule on_run_rule)
  fix r assume h: "halted st = None" and b: "vars st v = Some r"
  from safe_waited [OF assms(1) h assms(2) b] have w: "waited_for (trace st) r" .
  from safe_created [OF assms(1) h b] have c: "created (trace st) r" .
  from w c have "allowed_after (trace st) (Call c r)" by simp
  with assms(1) show "safe (perform pf c r st) w"
    by (intro safe_perform) simp_all
qed (use assms(1) in \<open>simp_all add: safe_stop\<close>)

lemma safe_wait:
  assumes "safe st w"
  shows "safe (on_run v (perform pf WaitOp) st) (v # w)"
proof (rule on_run_rule)
  fix r assume h: "halted st = None" and b: "vars st v = Some r"
  from safe_created [OF assms h b] have "allowed_after (trace st) (Call WaitOp r)" by simp
  with assms have p: "safe (perform pf WaitOp r st) w"
    by (intro safe_perform) simp_all
  show "safe (perform pf WaitOp r st) (v # w)"
    unfolding safe_def
  proof (intro conjI impI ballI allI)
    show "orderly (trace (perform pf WaitOp r st))" using p by (rule safe_orderly)
  next
    fix u r'
    assume "halted (perform pf WaitOp r st) = None" "vars (perform pf WaitOp r st) u = Some r'"
    with p show "created (trace (perform pf WaitOp r st)) r'" by (rule safe_created)
  next
    fix u r'
    assume h': "halted (perform pf WaitOp r st) = None" and u: "u \<in> set (v # w)"
      and b': "vars (perform pf WaitOp r st) u = Some r'"
    show "waited_for (trace (perform pf WaitOp r st)) r'"
    proof (cases "u = v")
      case True
      with b b' have "r' = r" by (simp add: perform_fields)
      with perform_wait [OF h h'] show ?thesis by simp
    next
      case False
      with u have "u \<in> set w" by simp
      from safe_waited [OF p h' this b'] show ?thesis .
    qed
  qed
next
  assume "halted st \<noteq> None"
  with assms show "safe st (v # w)" by (auto intro: safe_halted dest: safe_orderly)
next
  show "safe (st\<lparr>halted := Some AttributeError\<rparr>) (v # w)" using assms by (rule safe_stop)
qed

lemma safe_best_run:
  assumes "safe st w"
  shows "safe (exec pf (GetBestRun v p) st) (if p \<in> set w then v # w else removeAll v w)"
  unfolding exec.simps
proof (rule on_run_rule)
  assume "halted st \<noteq> None"
  with assms show "safe st (if p \<in> set w then v # w else removeAll v w)"
    by (auto intro: safe_halted dest: safe_orderly)
next
  show "safe (st\<lparr>halted := Some AttributeError\<rparr>) (if p \<in> set w then v # w else removeAll v w)"
    using assms by (rule safe_stop)
next
  fix r assume h: "halted st = None" and b: "vars st p = Some r"
  let ?p = "perform pf GetBestRunOp r st"
  from safe_created [OF assms h b] have cr: "created (trace st) r" .
  then have "allowed_after (trace st) (Call GetBestRunOp r)" by simp
  with assms have sp: "safe ?p w"
    by (intro safe_perform) simp_all
  from cr have cp: "created (trace ?p) r"
    by (rule created_mono) (rule perform_fields)
  show "safe (assign v (map_option (Child r) (best_of pf r)) ?p)
          (if p \<in> set w then v # w else removeAll v w)"
  proof (cases "p \<in> set w")
    case False
    have "safe (assign v (map_option (Child r) (best_of pf r)) ?p) (removeAll v w)"
      using sp by (rule safe_assign_unknown)
         (use cp in \<open>auto simp add: created_child split: option.splits\<close>)
    with False show ?thesis by simp
  next
    case True
    from safe_waited [OF assms h True b] have "waited_for (trace st) r" .
    then have "waited_for (trace ?p) r"
      by (rule waited_for_mono) (rule perform_fields)
    with cp have "case map_option (Child r) (best_of pf r) of None \<Rightarrow> True
               | Some x \<Rightarrow> waited_for (trace ?p) x \<and> created (trace ?p) x"
      by (auto simp add: waited_for_child created_child split: option.splits)
    with safe_assign [OF sp] True show ?thesis by simp
  qed
qed

lemma safe_for_metrics:
  assumes "safe st w" and "v \<in> set w"
  shows "safe (exec pf (ForMetrics v) st) w"
  unfolding exec.simps
proof (rule on_run_rule)
  fix r assume h: "halted st = None" and b: "vars st v = Some r"
  from safe_waited [OF assms(1) h assms(2) b] have w: "waited_for (trace st) r" .
  from safe_created [OF assms(1) h b] have c: "created (trace st) r" .
  let ?P = "\<lambda>s. safe s w \<and> (halted s = None \<longrightarrow> waited_for (trace s) r \<and> created (trace s) r)"
  have step: "?P (perform pf GetMetricsOp r s)" if "?P s" for s
  proof
    from that show "safe (perform pf GetMetricsOp r s) w"
      by (intro safe_perform) simp_all
    show "halted (perform pf GetMetricsOp r s) = None \<longrightarrow>
            waited_for (trace (perform pf GetMetricsOp r s)) r \<and>
            created (trace (perform pf GetMetricsOp r s)) r"
    proof
      assume "halted (perform pf GetMetricsOp r s) = None"
      with perform_fields(4) [of s pf GetMetricsOp r] have "halted s = None" by blast
      with that have "waited_for (trace s) r" "created (trace s) r" by simp_all
      then show "waited_for (trace (perform pf GetMetricsOp r s)) r \<and>
            created (trace (perform pf GetMetricsOp r s)) r"
        using perform_fields(3) [of s pf GetMetricsOp r]
        by (auto intro: waited_for_mono created_mono)
    qed
  qed
  have "?P (foldl (\<lambda>s' m. perform pf GetMetricsOp r s') (perform pf GetMetricsOp r st)
             (metric_names pf r))"
  proof (rule foldl_invariant)
    show "?P (perform pf GetMetricsOp r st)"
      using assms(1) w c by (intro step) simp
  next
    fix s :: wf_state and k :: string
    assume "?P s"
    then show "?P (perform pf GetMetricsOp r s)" by (rule step)
  qed
  then show "safe (foldl (\<lambda>s' m. perform pf GetMetricsOp r s') (perform pf GetMetricsOp r st)
             (metric_names pf r)) w"
    by simp
qed (use assms(1) in \<open>simp_all add: safe_stop\<close>)

lemma safe_for_children:
  assumes st: "safe st w" and p: "p \<in> set w"
    and sub: "set (v # w) \<subseteq> set w'"
    and inner: "\<And>s. safe s (v # w) \<Longrightarrow> safe (exec_all pf inner s) w'"
  shows "safe (exec pf (ForChildren v p inner) st) w"
  unfolding exec.simps
proof (rule on_run_rule)
  fix r assume h: "halted st = None" and b: "vars st p = Some r"
  from safe_waited [OF st h p b] have w: "waited_for (trace st) r" .
  from safe_created [OF st h b] have c: "created (trace st) r" .
  let ?P = "\<lambda>s. safe s w \<and> (halted s = None \<longrightarrow> waited_for (trace s) r \<and> created (trace s) r)"
  have init: "?P (perform pf GetChildrenOp r st)"
  proof
    from c have "allowed_after (trace st) (Call GetChildrenOp r)" by simp
    with st show "safe (perform pf GetChildrenOp r st) w"
      by (intro safe_perform) simp_all
    from w c show "halted (perform pf GetChildrenOp r st) = None \<longrightarrow>
               waited_for (trace (perform pf GetChildrenOp r st)) r \<and>
               created (trace (perform pf GetChildrenOp r st)) r"
      using perform_fields(3) [of st pf GetChildrenOp r]
      by (auto intro: waited_for_mono created_mono)
  qed
  have step: "?P (exec_all pf inner (assign v (Some (Child r k)) s))" if "?P s" for s k
  proof (cases "halted s = None")
    case False
    then have "exec_all pf inner (assign v (Some (Child r k)) s) = s"
      by (simp add: assign_halted exec_all_halted)
    with that show ?thesis by simp
  next
    case True
    with that have ws: "waited_for (trace s) r" and cs: "created (trace s) r" by simp_all
    then have "waited_for (trace s) (Child r k)" "created (trace s) (Child r k)"
      by (simp_all add: waited_for_child created_child)
    with that have "safe (assign v (Some (Child r k)) s) (v # w)"
      by (intro safe_assign) simp_all
    then have "safe (exec_all pf inner (assign v (Some (Child r k)) s)) w'"
      by (rule inner)
    then have a: "safe (exec_all pf inner (assign v (Some (Child r k)) s)) w"
      by (rule safe_weaken) (use sub in auto)
    have "set (trace s) \<subseteq> set (trace (exec_all pf inner (assign v (Some (Child r k)) s)))"
      using trace_mono(2) [of "assign v (Some (Child r k)) s" pf inner]
      by (simp add: assign_fields)
    with ws cs have "waited_for (trace (exec_all pf inner (assign v (Some (Child r k)) s))) r"
      "created (trace (exec_all pf inner (assign v (Some (Child r k)) s))) r"
      by (auto intro: waited_for_mono created_mono)
    with a show ?thesis by simp
  qed
  have "?P (foldl (\<lambda>s' k. exec_all pf inner (assign v (Some (Child r k)) s'))
              (perform pf GetChildrenOp r st) [0..<children pf r])"
  proof (rule foldl_invariant)
    show "?P (perform pf GetChildrenOp r st)" by (rule init)
  next
    fix s :: wf_state and k :: nat
    assume "?P s"
    then show "?P (exec_all pf inner (assign v (Some (Child r k)) s))" by (rule step)
  qed
  then show "safe (foldl (\<lambda>s' k. exec_all pf inner (assign v (Some (Child r k)) s'))
              (perform pf GetChildrenOp r st) [0..<children pf r]) w"
    by simp
qed (use st in \<open>simp_all add: safe_stop\<close>)

lemma safe_aside:
  assumes "safe st w"
  shows "safe (perform_aside pf name st) w"
  unfolding safe_def
proof (intro conjI impI ballI allI)
  show "orderly (trace (perform_aside pf name st))"
    using assms by (intro perform_aside_orderly) (rule safe_orderly)
next
  fix v r
  assume h: "halted (perform_aside pf name st) = None" and v: "v \<in> set w"
    and b: "vars (perform_aside pf name st) v = Some r"
  from h have h0: "halted st = None"
    by (auto simp add: perform_aside_def split: option.splits if_splits)
  from b have "vars st v = Some r"
    by (auto simp add: perform_aside_def split: option.splits if_splits)
  from safe_waited [OF assms h0 v this] show "waited_for (trace (perform_aside pf name st)) r"
    by (rule waited_for_mono) (rule perform_aside_mono)
next
  fix v r
  assume h: "halted (perform_aside pf name st) = None"
    and b: "vars (perform_aside pf name st) v = Some r"
  from h have h0: "halted st = None"
    by (auto simp add: perform_aside_def split: option.splits if_splits)
  from b have "vars st v = Some r"
    by (auto simp add: perform_aside_def split: option.splits if_splits)
  from safe_created [OF assms h0 this] show "created (trace (perform_aside pf name st)) r"
    by (rule created_mono) (rule perform_aside_mono)
qed

lemma check_sound:
  "safe st w \<Longrightarrow> check w s = Some w' \<Longrightarrow> safe (exec pf s st) w'"
  "safe st w \<Longrightarrow> check_all w ss = Some w' \<Longrightarrow> safe (exec_all pf ss st) w'"
proof (induction w s and w ss arbitrary: st w' and st w' rule: check_check_all.induct)
  case (1 w v)
  then show ?case by (auto intro: safe_new_run)
next
  case (2 w v)
  then show ?case by (auto intro: safe_new_run)
next
  case (3 w v)
  then show ?case by (auto intro: safe_wait)
next
  case (4 w v)
  then show ?case by (auto intro: safe_call_waited split: if_splits)
next
  case (5 w v)
  then show ?case by (auto intro: safe_call_waited split: if_splits)
next
  case (6 w v p)
  from safe_best_run [OF "6.prems"(1), of pf v p] "6.prems"(2) show ?case
    by (auto split: if_splits)
next
  case (7 w v p inner)
  from "7.prems"(2) obtain w'' where
    c: "p \<in> set w" "v \<noteq> p" "check_all (v # w) inner = Some w''" "set (v # w) \<subseteq> set w''" "w' = w"
    by (auto split: if_splits option.splits)
  have "safe (exec pf (ForChildren v p inner) st) w"
  proof (rule safe_for_children [OF "7.prems"(1) c(1) c(4)])
    fix s assume "safe s (v # w)"
    with "7.IH" c show "safe (exec_all pf inner s) w''" by blast
  qed
  with c(5) show ?case by simp
next
  case (8 w v)
  then show ?case by (auto intro: safe_for_metrics split: if_splits simp del: exec.simps)
next
  case (9 w name v)
  then show ?case by (auto intro: safe_call_plain)
next
  case (10 w name)
  then show ?case by (auto intro: safe_aside)
next
  case (11 w)
  then show ?case by simp
next
  case (12 w s ss)
  then show ?case by (auto split: option.splits)
qed


subsection \<open>Reading an orderly trace by position\<close>

lemma orderly_nth:
  "orderly t \<Longrightarrow> i < length t \<Longrightarrow> allowed_after (take i t) (t ! i)"
proof (induction arbitrary: i rule: orderly.induct)
  case orderly_Nil
  then show ?case by simp
next
  case (orderly_snoc t e)
  show ?case
  proof (cases "i < length t")
    case True
    with orderly_snoc.IH [of i] show ?thesis by (simp add: nth_append)
  next
    case False
    with orderly_snoc.prems have "i = length t" by simp
    with orderly_snoc.hyps show ?thesis by simp
  qed
qed

lemma return_follows_call:
  assumes "orderly t" and "k < length t" and "t ! k = Return c r"
  shows "0 < k \<and> t ! (k - 1) = Call c r"
proof -
  from orderly_nth [OF assms(1,2)] assms(3)
  have a: "take k t \<noteq> []" "last (take k t) = Call c r" by simp_all
  from a(1) have k: "0 < k" by (cases k) simp_all
  from a have "take k t ! (length (take k t) - 1) = Call c r" by (simp add: last_conv_nth)
  with assms(2) k show ?thesis by simp
qed

lemma waited_index:
  assumes "orderly t" and "i \<le> length t" and "waited_for (take i t) r"
  shows "\<exists>j a. Suc j < i \<and> a \<in> set (ancestors r) \<and>
           t ! j = Call WaitOp a \<and> t ! Suc j = Return WaitOp a"
proof -
  from assms(3) obtain a where a: "a \<in> set (ancestors r)" "Return WaitOp a \<in> set (take i t)"
    by (auto simp add: waited_for_def)
  from a(2) obtain k where k: "k < length (take i t)" "take i t ! k = Return WaitOp a"
    by (auto simp add: in_set_conv_nth)
  with assms(2) have k': "k < i" "k < length t" "t ! k = Return WaitOp a" by simp_all
  from return_follows_call [OF assms(1) k'(2,3)]
  have "0 < k" "t ! (k - 1) = Call WaitOp a" by simp_all
  with k' a(1) show ?thesis
    by (intro exI [of _ "k - 1"] exI [of _ a]) simp
qed

lemma created_index:
  assumes "i \<le> length t" and "created (take i t) r"
  shows "\<exists>h<i. t ! h = Return SubmitOp (submission r) \<or> t ! h = Return BackfillOp (submission r)"
proof -
  from assms(2) obtain e where e: "e \<in> set (take i t)"
    "e = Return SubmitOp (submission r) \<or> e = Return BackfillOp (submission r)"
    by (auto simp add: created_def)
  from e(1) obtain k where k: "k < length (take i t)" "take i t ! k = e"
    by (auto simp add: in_set_conv_nth)
  with assms(1) have "k < i" "t ! k = e" by simp_all
  with e(2) show ?thesis by auto
qed

lemma submission_ancestor: "a \<in> set (ancestors r) \<Longrightarrow> submission a = submission r"
  by (induction r) auto

lemma submitted_ancestor: "is_submitted r \<Longrightarrow> a \<in> set (ancestors r) \<Longrightarrow> a = r"
  by (cases r) simp_all

lemma submitted_submission: "is_submitted r \<Longrightarrow> submission r = r"
  by (cases r) simp_all

lemma submitted_then_waited:
  assumes o: "orderly t" and i: "i < length t" and c: "t ! i = Call c r" and n: "needs_wait c"
  shows "\<exists>h j a. h < j \<and> Suc j < i \<and> a \<in> set (ancestors r) \<and>
           (t ! h = Return SubmitOp (submission r) \<or> t ! h = Return BackfillOp (submission r)) \<and>
           t ! j = Call WaitOp a \<and> t ! Suc j = Return WaitOp a"
proof -
  from orderly_nth [OF o i] c n have "waited_for (take i t) r" by simp
  with o i obtain j a where j: "Suc j < i" "a \<in> set (ancestors r)"
    "t ! j = Call WaitOp a" "t ! Suc j = Return WaitOp a"
    using waited_index [of t i r] by auto
  from j(1) i have jl: "j < length t" by simp
  from orderly_nth [OF o jl] j(3) have "created (take j t) a" by simp
  with jl obtain h where h: "h < j"
    "t ! h = Return SubmitOp (submission a) \<or> t ! h = Return BackfillOp (submission a)"
    using created_index [of j t a] by auto
  from h(2) submission_ancestor [OF j(2)]
  have "t ! h = Return SubmitOp (submission r) \<or> t ! h = Return BackfillOp (submission r)"
    by simp
  with h(1) j show ?thesis by blast
qed

subsection \<open>The notebooks pass the check\<close>

lemma safe_start: "safe wf_start []"
  by (simp add: safe_def wf_start_def orderly_Nil)

lemma notebooks_checked: "nb \<in> set notebooks \<Longrightarrow> check_all [] nb \<noteq> None"
  by (auto simp add: notebooks_def train_models_notebook_def data_drift_notebook_def
      hyperdrive_notebook_def automl_notebook_def compute_notebook_def interpret_notebook_def)

lemma notebook_orderly:
  assumes "nb \<in> set notebooks"
  shows "orderly (trace (exec_all pf nb wf_start))"
proof -
  from notebooks_checked [OF assms] obtain w where "check_all [] nb = Some w" by auto
  from check_sound(2) [OF safe_start this] show ?thesis by (rule safe_orderly)
qed

subsection \<open>Notebooks without child runs\<close>

lemma submitted_only_perform:
  "submitted_only st \<Longrightarrow> is_submitted r \<Longrightarrow> c \<noteq> BackfillOp \<Longrightarrow> submitted_only (perform pf c r st)"
  by (auto simp add: submitted_only_def perform_def split: option.splits)

lemma submitted_only_stop: "submitted_only st \<Longrightarrow> submitted_only (st\<lparr>halted := Some e\<rparr>)"
  by (simp add: submitted_only_def)

lemma submitted_only_call:
  assumes "submitted_only st" and "c \<noteq> BackfillOp"
  shows "submitted_only (on_run v (perform pf c) st)"
proof (rule on_run_rule)
  fix r assume "halted st = None" and "vars st v = Some r"
  with assms(1) have "is_submitted r" by (auto simp add: submitted_only_def)
  with assms show "submitted_only (perform pf c r st)" by (intro submitted_only_perform)
qed (use assms(1) in \<open>simp_all add: submitted_only_stop\<close>)

lemma submitted_only_for_metrics:
  assumes "submitted_only st"
  shows "submitted_only (exec pf (ForMetrics v) st)"
  unfolding exec.simps
proof (rule on_run_rule)
  fix r assume "halted st = None" and "vars st v = Some r"
  with assms have r: "is_submitted r" by (auto simp add: submitted_only_def)
  show "submitted_only (foldl (\<lambda>s' m. perform pf GetMetricsOp r s') (perform pf GetMetricsOp r st)
          (metric_names pf r))"
  proof (rule foldl_invariant)
    show "submitted_only (perform pf GetMetricsOp r st)"
      using assms r by (intro submitted_only_perform) simp_all
  next
    fix s :: wf_state and k :: string
    assume "submitted_only s"
    then show "submitted_only (perform pf GetMetricsOp r s)"
      using r by (intro submitted_only_perform) simp_all
  qed
qed (use assms in \<open>simp_all add: submitted_only_stop\<close>)

lemma submitted_only_exec:
  assumes "flat s" and "submitted_only st"
  shows "submitted_only (exec pf s st)"
proof (cases s)
  case (Submit v)
  with assms(2) show ?thesis
    by (auto simp add: submitted_only_def new_run_def assign_def perform_def Let_def
        split: option.splits)
next
  case (ForMetrics v)
  with assms(2) show ?thesis by (simp only: submitted_only_for_metrics)
next
  case (Unrelated name)
  with assms(2) show ?thesis
    by (auto simp add: submitted_only_def perform_aside_def split: option.splits)
qed (use assms in \<open>simp_all add: submitted_only_call\<close>)

lemma submitted_only_exec_all:
  "list_all flat ss \<Longrightarrow> submitted_only st \<Longrightarrow> submitted_only (exec_all pf ss st)"
  by (induction ss arbitrary: st) (simp_all add: submitted_only_exec)

lemma submitted_only_start: "submitted_only wf_start"
  by (simp add: submitted_only_def wf_start_def)

lemma train_models_flat: "list_all flat train_models_notebook"
  by (simp add: train_models_notebook_def)

lemma train_models_submitted_only:
  "submitted_only (exec_all pf train_models_notebook wf_start)"
  using train_models_flat submitted_only_start by (rule submitted_only_exec_all)

lemma train_models_orderly: "orderly (trace (exec_all pf train_models_notebook wf_start))"
  by (rule notebook_orderly) (simp add: notebooks_def)


text \<open>The definitions that a run of a notebook unfolds to.\<close>

lemmas workflow_defs =
  wf_start_def new_run_def perform_def on_run_def assign_def perform_aside_def Let_def

text \<open>
  Claim C4. In every notebook, on every platform, a \<open>get_metrics\<close> call on a run comes
  after a wait for completion that was called and has returned, which itself comes
  after the submission or the backfill of the run has returned. The wait is on the
  run itself when the run was submitted by the notebook; the metrics of a child run
  (the best run of the tuning experiment, the children of the automated-ML run) are
  read after the wait on the run it descends from.
\<close>

theorem metrics_read_only_after_wait:
  assumes "nb \<in> set notebooks"
    and "i < length (trace (exec_all pf nb wf_start))"
    and "trace (exec_all pf nb wf_start) ! i = Call GetMetricsOp r"
  shows "\<exists>h j a. h < j \<and> Suc j < i \<and> a \<in> set (ancestors r) \<and> (is_submitted r \<longrightarrow> a = r) \<and>
           (trace (exec_all pf nb wf_start) ! h = Return SubmitOp (submission r) \<or>
            trace (exec_all pf nb wf_start) ! h = Return BackfillOp (submission r)) \<and>
           trace (exec_all pf nb wf_start) ! j = Call WaitOp a \<and>
           trace (exec_all pf nb wf_start) ! Suc j = Return WaitOp a"
proof -
  from submitted_then_waited [OF notebook_orderly [OF assms(1)] assms(2,3)]
  obtain h j a where *: "h < j" "Suc j < i" "a \<in> set (ancestors r)"
    "trace (exec_all pf nb wf_start) ! h = Return SubmitOp (submission r) \<or>
     trace (exec_all pf nb wf_start) ! h = Return BackfillOp (submission r)"
    "trace (exec_all pf nb wf_start) ! j = Call WaitOp a"
    "trace (exec_all pf nb wf_start) ! Suc j = Return WaitOp a"
    by auto
  from *(3) have "is_submitted r \<longrightarrow> a = r" by (auto dest: submitted_ancestor)
  with * show ?thesis by blast
qed

theorem metrics_read_only_after_wait_witness:
  "hyperdrive_notebook \<in> set notebooks \<and>
   10 < length (trace (exec_all calm_platform hyperdrive_notebook wf_start)) \<and>
   trace (exec_all calm_platform hyperdrive_notebook wf_start) ! 10 =
     Call GetMetricsOp (Child (Submitted 0) 1) \<and>
   (\<exists>h j a. h < j \<and> Suc j < 10 \<and> a \<in> set (ancestors (Child (Submitted 0) 1)) \<and>
      (is_submitted (Child (Submitted 0) 1) \<longrightarrow> a = Child (Submitted 0) 1) \<and>
      (trace (exec_all calm_platform hyperdrive_notebook wf_start) ! h =
         Return SubmitOp (submission (Child (Submitted 0) 1)) \<or>
       trace (exec_all calm_platform hyperdrive_notebook wf_start) ! h =
         Return BackfillOp (submission (Child (Submitted 0) 1))) \<and>
      trace (exec_all calm_platform hyperdrive_notebook wf_start) ! j = Call WaitOp a \<and>
      trace (exec_all calm_platform hyperdrive_notebook wf_start) ! Suc j = Return WaitOp a)"
  using metrics_read_only_after_wait [where nb = hyperdrive_notebook and pf = calm_platform
      and i = 10 and r = "Child (Submitted 0) 1"]
  by (simp add: notebooks_def hyperdrive_notebook_def calm_platform_def workflow_defs)

text \<open>
  Claim C6. In the training notebook, on every platform, a \<open>register_model\<close> call on a
  run comes after the wait for completion on that run was called and has returned,
  and that wait comes after the submission of that run has returned. On a platform
  where no call raises the second registration is reached, and on one where the wait
  on the second run raises it is not.
\<close>

theorem register_only_after_wait_returned:
  assumes "i < length (trace (exec_all pf train_models_notebook wf_start))"
    and "trace (exec_all pf train_models_notebook wf_start) ! i = Call RegisterModelOp r"
  shows "\<exists>h j. h < j \<and> Suc j < i \<and>
           trace (exec_all pf train_models_notebook wf_start) ! h = Return SubmitOp r \<and>
           trace (exec_all pf train_models_notebook wf_start) ! j = Call WaitOp r \<and>
           trace (exec_all pf train_models_notebook wf_start) ! Suc j = Return WaitOp r"
proof -
  let ?t = "trace (exec_all pf train_models_notebook wf_start)"
  have all: "list_all on_submitted ?t"
    using train_models_submitted_only [of pf] by (simp add: submitted_only_def)
  from all assms(1) have "on_submitted (?t ! i)" by (simp add: list_all_length)
  with assms(2) have r: "is_submitted r" by simp
  from submitted_then_waited [OF train_models_orderly assms(1,2)]
  obtain h j a where *: "h < j" "Suc j < i" "a \<in> set (ancestors r)"
    "?t ! h = Return SubmitOp (submission r) \<or> ?t ! h = Return BackfillOp (submission r)"
    "?t ! j = Call WaitOp a" "?t ! Suc j = Return WaitOp a"
    by auto
  from r *(3) have a: "a = r" by (rule submitted_ancestor)
  from *(1,2) assms(1) have "h < length ?t" by simp
  with all have "on_submitted (?t ! h)" by (simp add: list_all_length)
  with *(4) have "?t ! h = Return SubmitOp (submission r)" by auto
  with r have "?t ! h = Return SubmitOp r" by (simp add: submitted_submission)
  with * a show ?thesis by blast
qed

theorem register_only_after_wait_returned_witness:
  "31 < length (trace (exec_all calm_platform train_models_notebook wf_start)) \<and>
   trace (exec_all calm_platform train_models_notebook wf_start) ! 31 =
     Call RegisterModelOp (Submitted 1) \<and>
   (\<exists>h j. h < j \<and> Suc j < 31 \<and>
      trace (exec_all calm_platform train_models_notebook wf_start) ! h =
        Return SubmitOp (Submitted 1) \<and>
      trace (exec_all calm_platform train_models_notebook wf_start) ! j =
        Call WaitOp (Submitted 1) \<and>
      trace (exec_all calm_platform train_models_notebook wf_start) ! Suc j =
        Return WaitOp (Submitted 1)) \<and>
   Call RegisterModelOp (Submitted 1) \<notin>
     set (trace (exec_all failing_platform train_models_notebook wf_start))"
  using register_only_after_wait_returned [where pf = calm_platform and i = 31
      and r = "Submitted 1"]
  by (simp add: train_models_notebook_def calm_platform_def failing_platform_def workflow_defs)

end
